theory Spec2Isabelle
  imports Main "HOL-Library.Word" "HOL-Library.AList"
begin

unbundle bit_operations_syntax

section \<open>JavaScript primitives used by the sources\<close>

text \<open>
  JavaScript's 32-bit operators first convert their operands with ToInt32 (or ToUint32)
  and shift by the count modulo 32. On integer-valued numbers:
\<close>

definition ToInt32 :: "int \<Rightarrow> int" where
  "ToInt32 x = signed_take_bit 31 x"

definition ToUint32 :: "int \<Rightarrow> int" where
  "ToUint32 x = take_bit 32 x"

text \<open>\<^verbatim>\<open>a << n\<close>, \<^verbatim>\<open>a >> n\<close>, \<^verbatim>\<open>a | b\<close> and \<^verbatim>\<open>a & b\<close> on numbers.\<close>

definition shl32 :: "int \<Rightarrow> nat \<Rightarrow> int" where
  "shl32 a n = ToInt32 (push_bit (n mod 32) (ToInt32 a))"


definition bor32 :: "int \<Rightarrow> int \<Rightarrow> int" where
  "bor32 a b = ToInt32 a OR ToInt32 b"


text \<open>
  \<^verbatim>\<open>Number(b)\<close> of a BigInt \<open>b\<close> is exact up to \<open>2^53\<close>; larger magnitudes round to the
  nearest double, which this model leaves out (\<open>None\<close>).
\<close>

definition Number_of_BigInt :: "int \<Rightarrow> int option" where
  "Number_of_BigInt b = (if \<bar>b\<bar> \<le> 2 ^ 53 then Some b else None)"

text \<open>
  A \<^verbatim>\<open>Uint8Array\<close>. Reading an index outside the array gives \<^verbatim>\<open>undefined\<close> (\<open>None\<close>), which
  the 32-bit operators read as 0.
\<close>

type_synonym bytes = "8 word list"

definition elemAt :: "bytes \<Rightarrow> int \<Rightarrow> int option" where
  "elemAt buffer i =
     (if 0 \<le> i \<and> i < int (length buffer) then Some (uint (buffer ! nat i)) else None)"

definition int32_of :: "int option \<Rightarrow> int" where
  "int32_of v = (case v of None \<Rightarrow> 0 | Some n \<Rightarrow> ToInt32 n)"

text \<open>
  \<^verbatim>\<open>buffer.slice(start, end)\<close>: both bounds are clamped to the array, a negative bound
  counts from its end, and nothing is ever raised.
\<close>

definition slice :: "'a list \<Rightarrow> int \<Rightarrow> int \<Rightarrow> 'a list" where
  "slice xs start fin =
     (let len = int (length xs);
          k = (if start < 0 then max (len + start) 0 else min start len);
          final = (if fin < 0 then max (len + fin) 0 else min fin len)
      in take (nat (final - k)) (drop (nat k) xs))"

text \<open>\<^verbatim>\<open>String(n)\<close> and \<^verbatim>\<open>`${n}`\<close> of a non-negative integer: its decimal digits.\<close>

fun string_of_nat :: "nat \<Rightarrow> string" where
  "string_of_nat n =
     (if n < 10 then [''0123456789'' ! n]
      else string_of_nat (n div 10) @ [''0123456789'' ! (n mod 10)])"

declare string_of_nat.simps [simp del]

text \<open>
  \<^verbatim>\<open>parseInt(s)\<close> with no radix: leading white space, a sign, \<^verbatim>\<open>0x\<close> for hexadecimal, then
  the longest run of digits; \<open>None\<close> is \<^verbatim>\<open>NaN\<close>. The result is kept as an exact integer:
  it is only used as an array index, where the rounding of huge values to a double makes
  no difference. Strings are byte strings here, so only ASCII white space is skipped.
\<close>

definition isWhiteSpace :: "char \<Rightarrow> bool" where
  "isWhiteSpace c \<longleftrightarrow> of_char c \<in> {9, 10, 11, 12, 13, 32 :: nat}"

definition digitValue :: "char \<Rightarrow> nat option" where
  "digitValue c =
     (let n = of_char c :: nat
      in if 48 \<le> n \<and> n \<le> 57 then Some (n - 48)
         else if 97 \<le> n \<and> n \<le> 122 then Some (n - 87)
         else if 65 \<le> n \<and> n \<le> 90 then Some (n - 55)
         else None)"

definition isDigit :: "nat \<Rightarrow> char \<Rightarrow> bool" where
  "isDigit radix c = (case digitValue c of None \<Rightarrow> False | Some d \<Rightarrow> d < radix)"

definition parseInt :: "string \<Rightarrow> int option" where
  "parseInt s =
     (let s1 = dropWhile isWhiteSpace s;
          sign = (if take 1 s1 = ''-'' then - 1 else 1 :: int);
          s2 = (if take 1 s1 = ''-'' \<or> take 1 s1 = ''+'' then drop 1 s1 else s1);
          hex = (take 2 s2 = ''0x'' \<or> take 2 s2 = ''0X'');
          radix = (if hex then 16 else 10);
          s3 = (if hex then drop 2 s2 else s2);
          digits = takeWhile (isDigit radix) s3
      in if digits = [] then None
         else Some (sign * int (foldl (\<lambda>a c. radix * a + the (digitValue c)) 0 digits)))"

text \<open>The number a string of decimal digits stands for.\<close>

definition digit_value :: "char \<Rightarrow> nat" where
  "digit_value c = of_char c - 48"

definition nat_of_string :: "string \<Rightarrow> nat" where
  "nat_of_string s = foldl (\<lambda>a c. 10 * a + digit_value c) 0 s"

text \<open>
  The own properties of an object, as \<^verbatim>\<open>Object.entries\<close> lists them: the names that are
  array indices (the decimal form of a number below \<open>2^32 - 1\<close>) first, by their number, then
  the other names in the order of their creation. \<^verbatim>\<open>object[key] = v\<close> on a name that is
  present keeps its place.
\<close>

definition indexOf :: "string \<Rightarrow> int" where
  "indexOf s = foldl (\<lambda>a c. 10 * a + (of_char c - 48)) 0 s"

definition isArrayIndex :: "string \<Rightarrow> bool" where
  "isArrayIndex s \<longleftrightarrow>
     s \<noteq> [] \<and> list_all (isDigit 10) s \<and> (s = ''0'' \<or> hd s \<noteq> CHR ''0'') \<and> indexOf s < 4294967295"

fun insertIndexed :: "string \<Rightarrow> 'a \<Rightarrow> (string \<times> 'a) list \<Rightarrow> (string \<times> 'a) list" where
  "insertIndexed key v [] = [(key, v)]"
| "insertIndexed key v ((k, w) # es) =
     (if isArrayIndex k \<and> indexOf k < indexOf key then (k, w) # insertIndexed key v es
      else (key, v) # (k, w) # es)"

definition setProperty :: "string \<Rightarrow> 'a \<Rightarrow> (string \<times> 'a) list \<Rightarrow> (string \<times> 'a) list" where
  "setProperty key v es =
     (if key \<in> set (map fst es) then AList.update key v es
      else if isArrayIndex key then insertIndexed key v es
      else es @ [(key, v)])"


text \<open>
  \<^verbatim>\<open>array.splice(index, 1)\<close>: \<^verbatim>\<open>NaN\<close> counts as 0, a negative index counts from the end,
  and an index past the end removes nothing.
\<close>

definition splice1 :: "'a list \<Rightarrow> int option \<Rightarrow> 'a list" where
  "splice1 xs index =
     (let len = int (length xs);
          relativeStart = (case index of None \<Rightarrow> 0 | Some k \<Rightarrow> k);
          start = (if relativeStart < 0 then max (len + relativeStart) 0 else min relativeStart len)
      in take (nat start) xs @ drop (nat start + 1) xs)"

text \<open>
  \<^verbatim>\<open>array[index] = v\<close>. An index that is \<^verbatim>\<open>NaN\<close>, negative or beyond \<open>2^32 - 2\<close> names an
  ordinary property and leaves the elements alone; the index \<^verbatim>\<open>array.length\<close> appends, and
  a larger index leaves holes between the old elements and the new one.
\<close>

definition assignIndex :: "'a \<Rightarrow> 'a list \<Rightarrow> int option \<Rightarrow> 'a \<Rightarrow> 'a list" where
  "assignIndex hole xs index v =
     (case index of
        None \<Rightarrow> xs
      | Some k \<Rightarrow>
          if k < 0 \<or> 4294967295 \<le> k then xs
          else if k < int (length xs) then xs[nat k := v]
          else xs @ replicate (nat k - length xs) hole @ [v])"

text \<open>
  \<^verbatim>\<open>array.sort(cmp)\<close> with a consistent comparator is a stable sort: elements that compare
  equal keep their order. Modelled as insertion sort, inserting from the right.
\<close>

fun insort_by :: "('a \<Rightarrow> 'a \<Rightarrow> int) \<Rightarrow> 'a \<Rightarrow> 'a list \<Rightarrow> 'a list" where
  "insort_by cmp x [] = [x]"
| "insort_by cmp x (y # ys) = (if cmp x y \<le> 0 then x # y # ys else y # insort_by cmp x ys)"

definition Array_sort :: "('a \<Rightarrow> 'a \<Rightarrow> int) \<Rightarrow> 'a list \<Rightarrow> 'a list" where
  "Array_sort cmp xs = foldr (insort_by cmp) xs []"



text \<open>
  \<^verbatim>\<open>a.localeCompare(b)\<close> is the host's collation and a parameter of the functions that
  sort. Two comparators to instantiate it with: the comparison by code units, and what
  the engines' default collation gives on strings of ASCII letters (letters first without
  regard to case, then lower case before upper case: \<^verbatim>\<open>"a".localeCompare("B") < 0\<close>).
\<close>

fun codeUnitCompare :: "string \<Rightarrow> string \<Rightarrow> int" where
  "codeUnitCompare [] [] = 0"
| "codeUnitCompare [] (y # ys) = - 1"
| "codeUnitCompare (x # xs) [] = 1"
| "codeUnitCompare (x # xs) (y # ys) =
     (if (of_char x :: nat) < of_char y then - 1
      else if (of_char y :: nat) < of_char x then 1
      else codeUnitCompare xs ys)"



section \<open>NBT parser: 64-bit values at the prismarine-nbt boundary\<close>

text \<open>
  prismarine-nbt hands a long over as an array \<^verbatim>\<open>[high, low]\<close> of two int32 numbers;
  \<^verbatim>\<open>convertValue\<close> also takes a BigInt or a number (\<^verbatim>\<open>BigInt(value)\<close>).
\<close>

datatype jslong = HighLow int int | BigIntVal int | NumberVal int

text \<open>
  \<^verbatim>\<open>case "long"\<close> of \<^verbatim>\<open>convertValue\<close>:
  \<^verbatim>\<open>Array.isArray(value) ? BigInt(value[0]) * BigInt(2 ** 32) + BigInt(value[1] >>> 0) : BigInt(value)\<close>
\<close>

fun convertValue_long :: "jslong \<Rightarrow> int" where
  "convertValue_long (HighLow high low) = high * 2 ^ 32 + ToUint32 low"
| "convertValue_long (BigIntVal b) = b"
| "convertValue_long (NumberVal n) = n"

text \<open>
  \<^verbatim>\<open>case "longArray"\<close> of \<^verbatim>\<open>convertValue\<close>: each element is converted as above and stored
  into a \<^verbatim>\<open>BigInt64Array\<close>, which keeps the low 64 bits.
\<close>

definition convertValue_longArray :: "jslong list \<Rightarrow> 64 word list" where
  "convertValue_longArray vs = map (\<lambda>v. word_of_int (convertValue_long v)) vs"

text \<open>
  \<^verbatim>\<open>case TagType.Long\<close> of \<^verbatim>\<open>convertToPrismarineValue\<close>:
  \<^verbatim>\<open>[Number(bigVal >> BigInt(32)), Number(bigVal & BigInt(0xffffffff))]\<close>
\<close>

definition convertToPrismarineValue_Long :: "int \<Rightarrow> jslong option" where
  "convertToPrismarineValue_Long bigVal =
     (case (Number_of_BigInt (drop_bit 32 bigVal), Number_of_BigInt (bigVal AND 0xffffffff)) of
        (Some high, Some low) \<Rightarrow> Some (HighLow high low)
      | _ \<Rightarrow> None)"

text \<open>
  \<^verbatim>\<open>case TagType.LongArray\<close>: the same split, mapped over the elements of the
  \<^verbatim>\<open>BigInt64Array\<close> (read as signed 64-bit values).
\<close>

definition convertToPrismarineValue_LongArray :: "64 word list \<Rightarrow> jslong option list" where
  "convertToPrismarineValue_LongArray arr = map (\<lambda>v. convertToPrismarineValue_Long (sint v)) arr"

section \<open>Region files\<close>

text \<open>
  Both modules read the header with the same expressions:
  \<^verbatim>\<open>(buffer[o] << 16) | (buffer[o + 1] << 8) | buffer[o + 2]\<close> for the sector offset and
  \<^verbatim>\<open>(buffer[o] << 24) | (buffer[o + 1] << 16) | (buffer[o + 2] << 8) | buffer[o + 3]\<close> for
  the timestamp and the chunk length, each an int32.
\<close>

definition read3 :: "bytes \<Rightarrow> int \<Rightarrow> int" where
  "read3 buffer offset =
     bor32 (bor32 (shl32 (int32_of (elemAt buffer offset)) 16)
                  (shl32 (int32_of (elemAt buffer (offset + 1))) 8))
           (int32_of (elemAt buffer (offset + 2)))"

definition read4 :: "bytes \<Rightarrow> int \<Rightarrow> int" where
  "read4 buffer offset =
     bor32 (bor32 (bor32 (shl32 (int32_of (elemAt buffer offset)) 24)
                         (shl32 (int32_of (elemAt buffer (offset + 1))) 16))
                  (shl32 (int32_of (elemAt buffer (offset + 2))) 8))
           (int32_of (elemAt buffer (offset + 3)))"

subsection \<open>The MCA module\<close>

record ChunkLocation =
  cl_x :: nat
  cl_z :: nat
  cl_offset :: int
  cl_sectorCount :: "int option"
  cl_timestamp :: int

text \<open>
  \<^verbatim>\<open>chunks\<close> is a \<^verbatim>\<open>Map\<close> keyed by \<^verbatim>\<open>`${x},${z}`\<close>: an association list in insertion order,
  where setting a key that is present replaces its value in place.
\<close>

record RegionData =
  rd_filename :: string
  rd_chunks :: "(string \<times> ChunkLocation) list"
  rd_heightMap :: bytes
  rd_availableChunks :: "(nat \<times> nat) list"

definition chunkKey :: "nat \<Rightarrow> nat \<Rightarrow> string" where
  "chunkKey x z = string_of_nat x @ '','' @ string_of_nat z"

text \<open>The body of the loop of \<^verbatim>\<open>parseRegionHeader\<close> for slot \<open>i\<close>.\<close>

definition mca_slot :: "bytes \<Rightarrow> nat \<Rightarrow> RegionData \<Rightarrow> RegionData" where
  "mca_slot buffer i r =
     (let offset = int i * 4;
          locationData = read3 buffer offset;
          sectorCount = elemAt buffer (offset + 3)
      in if locationData = 0 \<and> sectorCount = Some 0 then r
         else
           let timestampOffset = 4096 + int i * 4;
               timestamp = read4 buffer timestampOffset;
               x = i mod 32;
               z = i div 32
           in r\<lparr>rd_chunks := AList.update (chunkKey x z)
                     \<lparr>cl_x = x, cl_z = z, cl_offset = locationData,
                      cl_sectorCount = sectorCount, cl_timestamp = timestamp\<rparr> (rd_chunks r),
                 rd_availableChunks := rd_availableChunks r @ [(x, z)]\<rparr>)"

definition mca_init :: RegionData where
  "mca_init = \<lparr>rd_filename = [], rd_chunks = [], rd_heightMap = replicate (512 * 512) 0,
        rd_availableChunks = []\<rparr>"

definition mca_parseRegionHeader :: "bytes \<Rightarrow> RegionData" where
  "mca_parseRegionHeader buffer = fold (mca_slot buffer) [0..<1024] mca_init"

text \<open>
  pako is not part of the sources: \<^verbatim>\<open>ungzip\<close> and \<^verbatim>\<open>inflate\<close> are parameters. A call throws,
  or returns the decompressed bytes, or returns \<^verbatim>\<open>undefined\<close> (as pako does on a stream
  that ends early).
\<close>

datatype pakoResult = PakoThrows | PakoUndefined | PakoData bytes

text \<open>
  \<^verbatim>\<open>readChunkData\<close>. The body is one \<^verbatim>\<open>try\<close> whose \<^verbatim>\<open>catch\<close> returns \<^verbatim>\<open>null\<close>; the reads
  cannot raise. What a decompressor returns is returned as it is, so the result is \<^verbatim>\<open>null\<close>,
  \<^verbatim>\<open>undefined\<close> or bytes.
\<close>

datatype chunkBytes = Null | Undefined | Data bytes

definition returned :: "pakoResult \<Rightarrow> chunkBytes" where
  "returned r = (case r of PakoThrows \<Rightarrow> Null | PakoUndefined \<Rightarrow> Undefined | PakoData d \<Rightarrow> Data d)"

definition readChunkData ::
  "(bytes \<Rightarrow> pakoResult) \<Rightarrow> (bytes \<Rightarrow> pakoResult) \<Rightarrow> bytes \<Rightarrow> ChunkLocation \<Rightarrow> chunkBytes" where
  "readChunkData ungzip inflate buffer location =
     (let chunkOffset = cl_offset location * 4096;
          dataLength = read4 buffer chunkOffset;
          compressionType = elemAt buffer (chunkOffset + 4);
          dataStart = chunkOffset + 5;
          dataEnd = dataStart + dataLength - 1;
          compressedData = slice buffer dataStart dataEnd
      in if compressionType = Some 1 then returned (ungzip compressedData)
         else if compressionType = Some 2 then returned (inflate compressedData)
         else if compressionType = Some 3 then Data compressedData
         else Null)"

subsection \<open>The NBT region module\<close>

record RegionChunkInfo =
  rc_x :: nat
  rc_z :: nat
  rc_offset :: int
  rc_sectorCount :: "int option"
  rc_timestamp :: int
  rc_compressionType :: "int option"
  rc_dataLength :: int

record RegionFileInfo =
  rf_filename :: string
  rf_chunks :: "RegionChunkInfo option list"
  rf_chunkCount :: nat

definition nbt_slot :: "bytes \<Rightarrow> nat \<Rightarrow> RegionFileInfo \<Rightarrow> RegionFileInfo" where
  "nbt_slot buffer i r =
     (let offset = int i * 4;
          locationData = read3 buffer offset;
          sectorCount = elemAt buffer (offset + 3)
      in if locationData = 0 \<and> sectorCount = Some 0 then r
         else
           let timestampOffset = 4096 + int i * 4;
               timestamp = read4 buffer timestampOffset;
               x = i mod 32;
               z = i div 32;
               chunkOffset = locationData * 4096;
               dataLength = read4 buffer chunkOffset;
               compressionType = elemAt buffer (chunkOffset + 4)
           in r\<lparr>rf_chunks := (rf_chunks r)[i :=
                     Some \<lparr>rc_x = x, rc_z = z, rc_offset = locationData,
                           rc_sectorCount = sectorCount, rc_timestamp = timestamp,
                           rc_compressionType = compressionType,
                           rc_dataLength = dataLength - 1\<rparr>],
                 rf_chunkCount := rf_chunkCount r + 1\<rparr>)"

definition nbt_init :: RegionFileInfo where
  "nbt_init = \<lparr>rf_filename = [], rf_chunks = replicate 1024 None, rf_chunkCount = 0\<rparr>"

definition nbt_parseRegionHeader :: "bytes \<Rightarrow> RegionFileInfo" where
  "nbt_parseRegionHeader buffer = fold (nbt_slot buffer) [0..<1024] nbt_init"

text \<open>
  \<^verbatim>\<open>extractChunk\<close>, again one \<^verbatim>\<open>try\<close> whose \<^verbatim>\<open>catch\<close> returns \<^verbatim>\<open>null\<close>. \<^verbatim>\<open>parseNbtBuffer\<close>
  rests on prismarine-nbt's parser and draws node ids from the module's counter: it is a
  parameter that takes what the decompressor returned (\<open>None\<close>: \<^verbatim>\<open>undefined\<close>) and the
  counter and returns the tree with the new counter, or \<open>None\<close> where it throws (before any
  id is drawn).
\<close>

type_synonym 'tree nbt_parser = "bytes option \<Rightarrow> nat \<Rightarrow> ('tree \<times> nat) option"

definition parsed :: "'tree nbt_parser \<Rightarrow> pakoResult \<Rightarrow> nat \<Rightarrow> ('tree \<times> nat) option" where
  "parsed parseNbtBuffer r nodeIdCounter =
     (case r of
        PakoThrows \<Rightarrow> None
      | PakoUndefined \<Rightarrow> parseNbtBuffer None nodeIdCounter
      | PakoData decompressed \<Rightarrow> parseNbtBuffer (Some decompressed) nodeIdCounter)"

definition extractChunk ::
  "(bytes \<Rightarrow> pakoResult) \<Rightarrow> (bytes \<Rightarrow> pakoResult) \<Rightarrow> 'tree nbt_parser \<Rightarrow>
     bytes \<Rightarrow> RegionChunkInfo \<Rightarrow> nat \<Rightarrow> ('tree \<times> nat) option" where
  "extractChunk ungzip inflate parseNbtBuffer buffer chunkInfo nodeIdCounter =
     (let chunkOffset = rc_offset chunkInfo * 4096;
          dataStart = chunkOffset + 5;
          dataEnd = dataStart + rc_dataLength chunkInfo;
          compressedData = slice buffer dataStart dataEnd
      in if rc_compressionType chunkInfo = Some 1 then
           parsed parseNbtBuffer (ungzip compressedData) nodeIdCounter
         else if rc_compressionType chunkInfo = Some 2 then
           parsed parseNbtBuffer (inflate compressedData) nodeIdCounter
         else if rc_compressionType chunkInfo = Some 3 then
           parseNbtBuffer (Some compressedData) nodeIdCounter
         else None)"

text \<open>
  The chunk loop of \<^verbatim>\<open>parseRegionFile\<close>: every present slot is extracted in turn, and a
  chunk is kept when its extraction is not \<^verbatim>\<open>null\<close>. The result pairs each kept chunk's
  header entry with its tree (from which the chunk node is then assembled).
\<close>

fun chunkLoop ::
  "(bytes \<Rightarrow> pakoResult) \<Rightarrow> (bytes \<Rightarrow> pakoResult) \<Rightarrow> 'tree nbt_parser \<Rightarrow>
     bytes \<Rightarrow> RegionChunkInfo option list \<Rightarrow> nat \<Rightarrow> (RegionChunkInfo \<times> 'tree) list \<times> nat" where
  "chunkLoop ungzip inflate parseNbtBuffer buffer [] nodeIdCounter = ([], nodeIdCounter)"
| "chunkLoop ungzip inflate parseNbtBuffer buffer (None # chunks) nodeIdCounter =
     chunkLoop ungzip inflate parseNbtBuffer buffer chunks nodeIdCounter"
| "chunkLoop ungzip inflate parseNbtBuffer buffer (Some chunkInfo # chunks) nodeIdCounter =
     (case extractChunk ungzip inflate parseNbtBuffer buffer chunkInfo nodeIdCounter of
        None \<Rightarrow> chunkLoop ungzip inflate parseNbtBuffer buffer chunks nodeIdCounter
      | Some (chunkData, counter') \<Rightarrow>
          (case chunkLoop ungzip inflate parseNbtBuffer buffer chunks counter' of
             (rootChildren, counter'') \<Rightarrow> ((chunkInfo, chunkData) # rootChildren, counter'')))"

section \<open>The NBT tree model, by value\<close>

datatype TagType =
    TagEnd | TagByte | TagShort | TagInt | TagLong | TagFloat | TagDouble | TagByteArray
  | TagString | TagList | TagCompound | TagIntArray | TagLongArray

text \<open>
  A JavaScript number: a finite double \<open>m * 2^e\<close> or one of the three special values. The
  tree functions store and copy numbers and never compute with them.
\<close>

datatype number = Finite int int | NaN | PosInfinity | NegInfinity

text \<open>
  \<^verbatim>\<open>NbtValue\<close> is an untagged union; the tag type travels beside it. An \<^verbatim>\<open>NbtList\<close> is
  \<^verbatim>\<open>{type, value}\<close>, an \<^verbatim>\<open>NbtCompound\<close> maps names to \<^verbatim>\<open>NbtTag\<close>s \<^verbatim>\<open>{type, value}\<close>: its own
  properties in the order \<^verbatim>\<open>Object.entries\<close> lists them. Two things that the edits can
  leave behind are values as well: a property that holds \<^verbatim>\<open>undefined\<close> instead of a tag
  (\<open>None\<close>), and a hole in the array of a list (\<open>VHole\<close>, which occurs nowhere else).
\<close>

datatype NbtValue =
    VNumber number
  | VBigInt int
  | VString string
  | VInt8Array "8 word list"
  | VInt32Array "32 word list"
  | VBigInt64Array "64 word list"
  | VList TagType "NbtValue list"
  | VCompound "(string \<times> (TagType \<times> NbtValue) option) list"
  | VHole

text \<open>
  A tree node. Two fields of \<^verbatim>\<open>NbtTreeNode\<close> are left out: \<^verbatim>\<open>id\<close>, a label drawn from a
  counter that none of the functions below reads, and \<^verbatim>\<open>parent\<close>, the back reference,
  which the position in the tree determines. \<^verbatim>\<open>children\<close> is optional, as in the source.
\<close>

datatype NbtTreeNode =
  Node (node_name: string) (node_type: TagType) (node_value: NbtValue)
       (node_children: "NbtTreeNode list option") (node_path: "string list")

text \<open>
  In this section a result \<open>None\<close> means that the source throws (the type and value of an
  \<^verbatim>\<open>undefined\<close> tag are read), or that the run leaves what the model covers: a cast
  \<^verbatim>\<open>value as X\<close> meets a value of another shape. \<^verbatim>\<open>map\<close> passes over the holes of an array
  and leaves them in its result.
\<close>

function cloneValue :: "TagType \<Rightarrow> NbtValue \<Rightarrow> NbtValue option" where
  "cloneValue type v =
     (case type of
        TagByteArray \<Rightarrow> (case v of VInt8Array a \<Rightarrow> Some (VInt8Array a) | _ \<Rightarrow> None)
      | TagIntArray \<Rightarrow> (case v of VInt32Array a \<Rightarrow> Some (VInt32Array a) | _ \<Rightarrow> None)
      | TagLongArray \<Rightarrow> (case v of VBigInt64Array a \<Rightarrow> Some (VBigInt64Array a) | _ \<Rightarrow> None)
      | TagList \<Rightarrow>
          (case v of
             VList t vs \<Rightarrow>
               map_option (VList t)
                 (those (map (\<lambda>e. if e = VHole then Some VHole else cloneValue t e) vs))
           | _ \<Rightarrow> None)
      | TagCompound \<Rightarrow>
          (case v of
             VCompound es \<Rightarrow>
               map_option VCompound
                 (those (map (\<lambda>(key, tag). case tag of
                                 None \<Rightarrow> None
                               | Some (t, e) \<Rightarrow>
                                   map_option (\<lambda>e'. (key, Some (t, e'))) (cloneValue t e)) es))
           | _ \<Rightarrow> None)
      | _ \<Rightarrow> Some v)"
  by pat_completeness auto
termination
proof (relation "measure (\<lambda>(t, v). size v)", goal_cases)
  case 1
  then show ?case by simp
next
  case (2 type v t vs e)
  then have "e \<in> set vs"
    by simp
  then have "size e < size (VList t vs)"
    by (induction vs) auto
  with 2 show ?case by simp
next
  case (3 type v es x key tag y t e)
  then have "(key, Some (t, e)) \<in> set es"
    by simp
  then have "size e < size (VCompound es)"
    by (induction es) auto
  with 3 show ?case by auto
qed

declare cloneValue.simps [simp del]

fun cloneTree :: "NbtTreeNode \<Rightarrow> NbtTreeNode option" where
  "cloneTree (Node name type v children path) =
     (case cloneValue type v of
        None \<Rightarrow> None
      | Some v' \<Rightarrow>
          (case children of
             None \<Rightarrow> Some (Node name type v' None path)
           | Some cs \<Rightarrow>
               map_option (\<lambda>cs'. Node name type v' (Some cs') path) (those (map cloneTree cs))))"



text \<open>
  \<^verbatim>\<open>findNodeByPath\<close>. The loop starts at index 1: \<open>walk\<close> is the loop, over the segments
  that follow the first.
\<close>

fun walk :: "NbtTreeNode \<Rightarrow> string list \<Rightarrow> NbtTreeNode option" where
  "walk current [] = Some current"
| "walk current (seg # segs) =
     (case node_children current of
        None \<Rightarrow> None
      | Some cs \<Rightarrow>
          (case find (\<lambda>c. node_name c = seg) cs of
             None \<Rightarrow> None
           | Some c \<Rightarrow> walk c segs))"

definition findNodeByPath :: "NbtTreeNode \<Rightarrow> string list \<Rightarrow> NbtTreeNode option" where
  "findNodeByPath root path =
     (if length path = 0 \<or> (length path = 1 \<and> path ! 0 = node_name root) then Some root
      else walk root (drop 1 path))"

text \<open>
  The edits mutate the node object that \<^verbatim>\<open>findNodeByPath\<close> returned, inside a tree that
  \<^verbatim>\<open>cloneTree\<close> has just built and that shares nothing. On the tree as a value this is
  the replacement of the subtree at the position \<^verbatim>\<open>findNodeByPath\<close> reaches.
\<close>

fun replaceWalk :: "NbtTreeNode \<Rightarrow> string list \<Rightarrow> NbtTreeNode \<Rightarrow> NbtTreeNode"
  and replaceFirst :: "NbtTreeNode list \<Rightarrow> string \<Rightarrow> string list \<Rightarrow> NbtTreeNode \<Rightarrow> NbtTreeNode list" where
  "replaceWalk current [] n = n"
| "replaceWalk (Node name type v None path) (seg # segs) n = Node name type v None path"
| "replaceWalk (Node name type v (Some cs) path) (seg # segs) n =
     Node name type v (Some (replaceFirst cs seg segs n)) path"
| "replaceFirst [] seg segs n = []"
| "replaceFirst (c # cs) seg segs n =
     (if node_name c = seg then replaceWalk c segs n # cs else c # replaceFirst cs seg segs n)"

definition replaceAt :: "NbtTreeNode \<Rightarrow> string list \<Rightarrow> NbtTreeNode \<Rightarrow> NbtTreeNode" where
  "replaceAt root path n =
     (if length path = 0 \<or> (length path = 1 \<and> path ! 0 = node_name root) then n
      else replaceWalk root (drop 1 path) n)"

text \<open>One round of the loop of \<^verbatim>\<open>updateParentValues\<close>, for the index \<open>i\<close>.\<close>

definition updateParentValues_step :: "NbtTreeNode \<Rightarrow> string list \<Rightarrow> nat \<Rightarrow> NbtTreeNode option" where
  "updateParentValues_step root path i =
     (let parentPath = take i path
      in case (findNodeByPath root parentPath, findNodeByPath root (take (i + 1) path)) of
           (Some parent, Some child) \<Rightarrow>
             if node_type parent = TagCompound then
               (case node_value parent of
                  VCompound compound \<Rightarrow>
                    Some (replaceAt root parentPath
                      (Node (node_name parent) (node_type parent)
                         (VCompound (setProperty (node_name child)
                            (Some (node_type child, node_value child)) compound))
                         (node_children parent) (node_path parent)))
                | _ \<Rightarrow> None)
             else if node_type parent = TagList then
               (case node_value parent of
                  VList lt vs \<Rightarrow>
                    Some (replaceAt root parentPath
                      (Node (node_name parent) (node_type parent)
                         (VList lt (assignIndex VHole vs (parseInt (node_name child)) (node_value child)))
                         (node_children parent) (node_path parent)))
                | _ \<Rightarrow> None)
             else Some root
         | _ \<Rightarrow> Some root)"

text \<open>\<^verbatim>\<open>for (let i = path.length - 1; i >= 1; i--)\<close>\<close>

fun updateParentValues_loop :: "nat \<Rightarrow> NbtTreeNode \<Rightarrow> string list \<Rightarrow> NbtTreeNode option" where
  "updateParentValues_loop 0 root path = Some root"
| "updateParentValues_loop (Suc k) root path =
     (case updateParentValues_step root path (Suc k) of
        None \<Rightarrow> None
      | Some root' \<Rightarrow> updateParentValues_loop k root' path)"

definition updateParentValues :: "NbtTreeNode \<Rightarrow> string list \<Rightarrow> NbtTreeNode option" where
  "updateParentValues root path = updateParentValues_loop (length path - 1) root path"

definition updateNodeValue :: "NbtTreeNode \<Rightarrow> string list \<Rightarrow> NbtValue \<Rightarrow> NbtTreeNode option" where
  "updateNodeValue root nodePath newValue =
     (case cloneTree root of
        None \<Rightarrow> None
      | Some clonedRoot \<Rightarrow>
          (case findNodeByPath clonedRoot nodePath of
             None \<Rightarrow> Some clonedRoot
           | Some node \<Rightarrow>
               updateParentValues
                 (replaceAt clonedRoot nodePath
                    (Node (node_name node) (node_type node) newValue (node_children node) (node_path node)))
                 nodePath))"

text \<open>\<^verbatim>\<open>parent.children || []\<close>\<close>

definition children_or_empty :: "NbtTreeNode \<Rightarrow> NbtTreeNode list" where
  "children_or_empty n = (case node_children n of None \<Rightarrow> [] | Some cs \<Rightarrow> cs)"

text \<open>\<^verbatim>\<open>(a, b) => a.name.localeCompare(b.name)\<close>\<close>

definition byName :: "(string \<Rightarrow> string \<Rightarrow> int) \<Rightarrow> NbtTreeNode \<Rightarrow> NbtTreeNode \<Rightarrow> int" where
  "byName localeCompare a b = localeCompare (node_name a) (node_name b)"

definition addTag ::
  "(string \<Rightarrow> string \<Rightarrow> int) \<Rightarrow> NbtTreeNode \<Rightarrow> string list \<Rightarrow> string \<Rightarrow> TagType \<Rightarrow> NbtValue \<Rightarrow>
     NbtTreeNode option" where
  "addTag localeCompare root parentPath name type v =
     (case cloneTree root of
        None \<Rightarrow> None
      | Some clonedRoot \<Rightarrow>
          (case findNodeByPath clonedRoot parentPath of
             None \<Rightarrow> Some clonedRoot
           | Some parent \<Rightarrow>
               (let newNode = Node name type v None (parentPath @ [name])
                in if node_type parent = TagCompound then
                     (case node_value parent of
                        VCompound compound \<Rightarrow>
                          updateParentValues
                            (replaceAt clonedRoot parentPath
                               (Node (node_name parent) (node_type parent)
                                  (VCompound (setProperty name (Some (type, v)) compound))
                                  (Some (Array_sort (byName localeCompare) (children_or_empty parent @ [newNode])))
                                  (node_path parent)))
                            parentPath
                      | _ \<Rightarrow> None)
                   else if node_type parent = TagList then
                     (case node_value parent of
                        VList lt vs \<Rightarrow>
                          (let newName = string_of_nat (length (children_or_empty parent));
                               newNode' = Node newName type v None (parentPath @ [newName])
                           in updateParentValues
                                (replaceAt clonedRoot parentPath
                                   (Node (node_name parent) (node_type parent) (VList lt (vs @ [v]))
                                      (Some (children_or_empty parent @ [newNode'])) (node_path parent)))
                                parentPath)
                      | _ \<Rightarrow> None)
                   else updateParentValues clonedRoot parentPath)))"

text \<open>\<^verbatim>\<open>parent.children?.forEach((c, i) => { c.name = String(i); c.path = [...parentPath, String(i)]; })\<close>\<close>

definition renumber :: "string list \<Rightarrow> NbtTreeNode list \<Rightarrow> NbtTreeNode list" where
  "renumber parentPath cs =
     map (\<lambda>(i, c). Node (string_of_nat i) (node_type c) (node_value c) (node_children c)
                      (parentPath @ [string_of_nat i]))
       (enumerate 0 cs)"

definition deleteTag :: "NbtTreeNode \<Rightarrow> string list \<Rightarrow> NbtTreeNode option" where
  "deleteTag root nodePath =
     (if length nodePath \<le> 1 then Some root
      else
        (case cloneTree root of
           None \<Rightarrow> None
         | Some clonedRoot \<Rightarrow>
             (let parentPath = butlast nodePath;
                  nodeName = last nodePath
              in (case findNodeByPath clonedRoot parentPath of
                    None \<Rightarrow> Some clonedRoot
                  | Some parent \<Rightarrow>
                      if node_type parent = TagCompound then
                        (case node_value parent of
                           VCompound compound \<Rightarrow>
                             updateParentValues
                               (replaceAt clonedRoot parentPath
                                  (Node (node_name parent) (node_type parent)
                                     (VCompound (AList.delete nodeName compound))
                                     (map_option (filter (\<lambda>c. node_name c \<noteq> nodeName)) (node_children parent))
                                     (node_path parent)))
                               parentPath
                         | _ \<Rightarrow> None)
                      else if node_type parent = TagList then
                        (case node_value parent of
                           VList lt vs \<Rightarrow>
                             (let index = parseInt nodeName
                              in updateParentValues
                                   (replaceAt clonedRoot parentPath
                                      (Node (node_name parent) (node_type parent) (VList lt (splice1 vs index))
                                         (map_option (\<lambda>cs. renumber parentPath (splice1 cs index))
                                            (node_children parent))
                                         (node_path parent)))
                                   parentPath)
                         | _ \<Rightarrow> None)
                      else updateParentValues clonedRoot parentPath))))"

text \<open>
  \<^verbatim>\<open>compound[key]\<close>: the tag stored under the name, or \<^verbatim>\<open>undefined\<close> when the compound has no
  such property (for a name that is not inherited).
\<close>

definition getProperty :: "(string \<times> 'a option) list \<Rightarrow> string \<Rightarrow> 'a option" where
  "getProperty compound key = (case map_of compound key of None \<Rightarrow> None | Some tag \<Rightarrow> tag)"

text \<open>
  \<^verbatim>\<open>renameTag\<close>. What \<^verbatim>\<open>compound[oldName]\<close> gives is stored under the new name, also when it
  is \<^verbatim>\<open>undefined\<close>. The node is renamed in place, so the parent whose children are sorted
  afterwards is looked up again in the tree that holds the renamed node.
\<close>

definition renameTag ::
  "(string \<Rightarrow> string \<Rightarrow> int) \<Rightarrow> NbtTreeNode \<Rightarrow> string list \<Rightarrow> string \<Rightarrow> NbtTreeNode option" where
  "renameTag localeCompare root nodePath newName =
     (if length nodePath \<le> 1 then Some root
      else
        (case cloneTree root of
           None \<Rightarrow> None
         | Some clonedRoot \<Rightarrow>
             (let parentPath = butlast nodePath;
                  oldName = last nodePath
              in (case (findNodeByPath clonedRoot parentPath, findNodeByPath clonedRoot nodePath) of
                    (Some parent, Some node) \<Rightarrow>
                      if node_type parent \<noteq> TagCompound then Some clonedRoot
                      else
                        (case node_value parent of
                           VCompound compound \<Rightarrow>
                             (let tag = getProperty compound oldName;
                                  renamed = replaceAt clonedRoot nodePath
                                    (Node newName (node_type node) (node_value node) (node_children node)
                                       (parentPath @ [newName]))
                              in (case findNodeByPath renamed parentPath of
                                    None \<Rightarrow> None
                                  | Some parent' \<Rightarrow>
                                      Some (replaceAt renamed parentPath
                                        (Node (node_name parent') (node_type parent')
                                           (VCompound (setProperty newName tag (AList.delete oldName compound)))
                                           (map_option (Array_sort (byName localeCompare)) (node_children parent'))
                                           (node_path parent')))))
                         | _ \<Rightarrow> None)
                  | _ \<Rightarrow> Some clonedRoot))))"

section \<open>Notions used in the statements\<close>

subsection \<open>Region header\<close>

text \<open>A slot is skipped when its three offset bytes and its sector count are all zero.\<close>

definition slot_skipped :: "bytes \<Rightarrow> nat \<Rightarrow> bool" where
  "slot_skipped buffer i \<longleftrightarrow>
     read3 buffer (int i * 4) = 0 \<and> elemAt buffer (int i * 4 + 3) = Some 0"

definition mca_entry :: "bytes \<Rightarrow> nat \<Rightarrow> ChunkLocation" where
  "mca_entry buffer i =
     \<lparr>cl_x = i mod 32, cl_z = i div 32, cl_offset = read3 buffer (int i * 4),
      cl_sectorCount = elemAt buffer (int i * 4 + 3),
      cl_timestamp = read4 buffer (4096 + int i * 4)\<rparr>"

definition nbt_entry :: "bytes \<Rightarrow> nat \<Rightarrow> RegionChunkInfo" where
  "nbt_entry buffer i =
     \<lparr>rc_x = i mod 32, rc_z = i div 32, rc_offset = read3 buffer (int i * 4),
      rc_sectorCount = elemAt buffer (int i * 4 + 3),
      rc_timestamp = read4 buffer (4096 + int i * 4),
      rc_compressionType = elemAt buffer (read3 buffer (int i * 4) * 4096 + 4),
      rc_dataLength = read4 buffer (read3 buffer (int i * 4) * 4096) - 1\<rparr>"

text \<open>
  The payload \<^verbatim>\<open>slice\<close> gives for a chunk at byte \<open>start - 5\<close> that announces \<open>dataLength\<close>
  bytes after the compression type, so that \<open>fin\<close> is \<open>start + dataLength\<close>: the announced
  range as far as the buffer holds it; nothing when the announced length is not positive,
  unless the end is negative, which \<^verbatim>\<open>slice\<close> counts from the end of the buffer.
\<close>

definition payload :: "bytes \<Rightarrow> int \<Rightarrow> int \<Rightarrow> bytes" where
  "payload buffer start fin =
     (if start \<le> fin then take (nat (fin - start)) (drop (nat start) buffer)
      else if 0 \<le> fin then []
      else take (nat (int (length buffer) + fin - start)) (drop (nat start) buffer))"

text \<open>
  A region file whose header holds one entry, slot 0 at sector 2 with one sector, and whose
  chunk announces 9 payload bytes, uncompressed, of which the file holds 2. The second
  file is the same with compression type 9.
\<close>

definition truncated_region :: bytes where
  "truncated_region = [0, 0, 2, 1] @ replicate 8188 0 @ [0, 0, 0, 10, 3, 7, 8]"

definition unknown_region :: bytes where
  "unknown_region = [0, 0, 2, 1] @ replicate 8188 0 @ [0, 0, 0, 10, 9, 7, 8]"

text \<open>A decompressor that throws on every input, and a parser that accepts bytes only.\<close>

definition pako_throws :: "bytes \<Rightarrow> pakoResult" where
  "pako_throws compressedData = PakoThrows"

definition parse_bytes :: "bytes nbt_parser" where
  "parse_bytes decompressed nodeIdCounter =
     (case decompressed of None \<Rightarrow> None | Some d \<Rightarrow> Some (d, Suc nodeIdCounter))"

subsection \<open>Trees\<close>








text \<open>The tree holds no \<^verbatim>\<open>undefined\<close> tag.\<close>

function defined :: "TagType \<Rightarrow> NbtValue \<Rightarrow> bool" where
  "defined type v =
     (case type of
        TagList \<Rightarrow> (case v of VList t vs \<Rightarrow> list_all (\<lambda>e. e = VHole \<or> defined t e) vs | _ \<Rightarrow> True)
      | TagCompound \<Rightarrow>
          (case v of
             VCompound es \<Rightarrow>
               list_all (\<lambda>(key, tag). case tag of None \<Rightarrow> False | Some (t, e) \<Rightarrow> defined t e) es
           | _ \<Rightarrow> True)
      | _ \<Rightarrow> True)"
  by pat_completeness auto
termination
proof (relation "measure (\<lambda>(t, v). size v)", goal_cases)
  case 1
  then show ?case by simp
next
  case (2 type v t vs e)
  then have "e \<in> set vs"
    by simp
  then have "size e < size (VList t vs)"
    by (induction vs) auto
  with 2 show ?case by simp
next
  case (3 type v es x key tag y t e)
  then have "(key, Some (t, e)) \<in> set es"
    by simp
  then have "size e < size (VCompound es)"
    by (induction es) auto
  with 3 show ?case by auto
qed

declare defined.simps [simp del]

fun allDefined :: "NbtTreeNode \<Rightarrow> bool" where
  "allDefined (Node name type v children path) =
     (defined type v \<and> (case children of None \<Rightarrow> True | Some cs \<Rightarrow> list_all allDefined cs))"

text \<open>
  The document \<^verbatim>\<open>Data: {b: 1b, a: [5, 6]}\<close> as \<^verbatim>\<open>buildTreeNode\<close> lays it out, and its
  list node.
\<close>

definition example_list :: NbtTreeNode where
  "example_list =
     Node ''a'' TagList (VList TagInt [VNumber (Finite 5 0), VNumber (Finite 6 0)])
       (Some [Node ''0'' TagInt (VNumber (Finite 5 0)) None [''Data'', ''a'', ''0''],
              Node ''1'' TagInt (VNumber (Finite 6 0)) None [''Data'', ''a'', ''1'']])
       [''Data'', ''a'']"

definition example_root :: NbtTreeNode where
  "example_root =
     Node ''Data'' TagCompound
       (VCompound [(''b'', Some (TagByte, VNumber (Finite 1 0))),
                   (''a'', Some (TagList, VList TagInt [VNumber (Finite 5 0), VNumber (Finite 6 0)]))])
       (Some [example_list, Node ''b'' TagByte (VNumber (Finite 1 0)) None [''Data'', ''b'']])
       [''Data'']"



definition example_undefined :: NbtTreeNode where
  "example_undefined =
     Node ''Data'' TagCompound
       (VCompound [(''a'', Some (TagList, VList TagInt [VNumber (Finite 5 0), VNumber (Finite 6 0)])),
                   (''c'', Some (TagByte, VNumber (Finite 2 0))),
                   (''d'', None)])
       (Some [example_list,
              Node ''c'' TagByte (VNumber (Finite 1 0)) None [''Data'', ''c''],
              Node ''d'' TagByte (VNumber (Finite 2 0)) None [''Data'', ''d'']])
       [''Data'']"

section \<open>Block section decoder (MCA module, \<^verbatim>\<open>extractBlocks\<close>)\<close>












text \<open>
  \<^verbatim>\<open>blockNameMap\<close> is an object literal, so \<^verbatim>\<open>blockNameMap[n]\<close> also finds the members every
  object inherits; they are functions or objects, which \<^verbatim>\<open>|| 1\<close> lets through.
\<close>


text \<open>
  \<^verbatim>\<open>Math.ceil(Math.log2(n))\<close> for an array length \<open>n \<ge> 1\<close>, taken as exact: the least \<open>k\<close>
  with \<open>n \<le> 2^k\<close>.
\<close>

fun ceil_log2 :: "nat \<Rightarrow> nat" where
  "ceil_log2 n = (if n \<le> 1 then 0 else Suc (ceil_log2 ((n + 1) div 2)))"

declare ceil_log2.simps [simp del]


















subsection \<open>Packing, as the specification describes it\<close>

text \<open>
  The encoder is not part of the program. Following the specification's description of the
  layout, entry \<open>j\<close> of a word occupies its bits from \<open>j * bitsPerEntry\<close>, entries are taken
  \<open>entriesPerWord\<close> at a time, and a word reaches the decoder as prismarine-nbt's pair of
  signed 32-bit halves or as a signed BigInt.
\<close>

fun packWord :: "nat \<Rightarrow> nat list \<Rightarrow> nat" where
  "packWord bitsPerEntry [] = 0"
| "packWord bitsPerEntry (e # es) = e + 2 ^ bitsPerEntry * packWord bitsPerEntry es"

definition packIndices :: "nat \<Rightarrow> nat list \<Rightarrow> 64 word list" where
  "packIndices paletteLength indices =
     (let bitsPerEntry = max 4 (ceil_log2 paletteLength);
          entriesPerWord = 64 div bitsPerEntry
      in map (\<lambda>w. word_of_nat
                     (packWord bitsPerEntry (take entriesPerWord (drop (w * entriesPerWord) indices))))
           [0..<(length indices + entriesPerWord - 1) div entriesPerWord])"

definition asHighLow :: "64 word \<Rightarrow> jslong" where
  "asHighLow w = HighLow (sint (ucast (drop_bit 32 w) :: 32 word)) (sint (ucast w :: 32 word))"


subsection \<open>Notions used in the statements about sections\<close>






section \<open>Splitting and recombining 64-bit values\<close>

lemma split_high_low:
  fixes v :: int
  shows "drop_bit 32 v * 2 ^ 32 + take_bit 32 (v AND 0xffffffff) = v"
proof -
  have m: "(0xffffffff :: int) = mask 32"
    by (simp add: mask_eq_exp_minus_1)
  have "take_bit 32 (v AND 0xffffffff) = take_bit 32 v"
    unfolding m by (simp add: take_bit_eq_mask and.assoc)
  moreover have "drop_bit 32 v * 2 ^ 32 + take_bit 32 v = v"
    by (simp add: drop_bit_eq_div take_bit_eq_mod)
  ultimately show ?thesis by simp
qed

lemma split_high_exact:
  fixes v :: int
  assumes "- (2 ^ 63) \<le> v" "v < 2 ^ 63"
  shows "\<bar>drop_bit 32 v\<bar> \<le> 2 ^ 53"
proof -
  have "- (2 ^ 31) \<le> v div 2 ^ 32" "v div 2 ^ 32 < 2 ^ 31"
    using assms by (simp_all add: zdiv_int pos_imp_zdiv_neg_iff div_le_mono)
  then show ?thesis
    by (simp add: drop_bit_eq_div abs_le_iff)
qed

lemma split_low_exact:
  fixes v :: int
  shows "\<bar>v AND 0xffffffff\<bar> \<le> 2 ^ 53"
proof -
  have m: "(0xffffffff :: int) = mask 32"
    by (simp add: mask_eq_exp_minus_1)
  have "v AND 0xffffffff = take_bit 32 v"
    unfolding m by (simp add: take_bit_eq_mask)
  moreover have "0 \<le> take_bit 32 v" "take_bit 32 v < 2 ^ 32"
    using take_bit_int_less_exp [of 32 v] by simp_all
  ultimately show ?thesis by simp
qed

lemma long_roundtrip_one:
  fixes x :: int
  assumes "- (2 ^ 63) \<le> x" "x < 2 ^ 63"
  shows "\<exists>p. convertToPrismarineValue_Long x = Some p \<and> convertValue_long p = x"
  using split_high_exact [OF assms] split_low_exact [of x] split_high_low [of x]
  by (simp add: convertToPrismarineValue_Long_def Number_of_BigInt_def ToUint32_def)

lemma long_roundtrip_word:
  fixes w :: "64 word"
  shows "\<exists>p. convertToPrismarineValue_Long (sint w) = Some p \<and> word_of_int (convertValue_long p) = w"
proof -
  have "- (2 ^ 63) \<le> sint w" "sint w < 2 ^ 63"
    using sint_ge [of w] sint_lt [of w] by simp_all
  from long_roundtrip_one [OF this] show ?thesis by auto
qed

lemma longArray_roundtrip:
  "\<exists>ps. convertToPrismarineValue_LongArray arr = map Some ps \<and> convertValue_longArray ps = arr"
proof (induction arr)
  case Nil
  then show ?case
    by (simp add: convertToPrismarineValue_LongArray_def convertValue_longArray_def)
next
  case (Cons w ws)
  then obtain ps where ps: "convertToPrismarineValue_LongArray ws = map Some ps"
    "convertValue_longArray ps = ws"
    by blast
  obtain p where p: "convertToPrismarineValue_Long (sint w) = Some p"
    "word_of_int (convertValue_long p) = w"
    using long_roundtrip_word by blast
  have "convertToPrismarineValue_LongArray (w # ws) = map Some (p # ps)"
    using ps(1) p(1) by (simp add: convertToPrismarineValue_LongArray_def)
  moreover have "convertValue_longArray (p # ps) = w # ws"
    using ps(2) p(2) by (simp add: convertValue_longArray_def)
  ultimately show ?case by blast
qed

text \<open>
  C7. Every 64-bit integer \<open>v\<close> in \<open>[-2^63, 2^63)\<close> is split by
  \<^verbatim>\<open>convertToPrismarineValue\<close> into a \<^verbatim>\<open>[high, low]\<close> pair of numbers without rounding, and
  \<^verbatim>\<open>convertValue\<close> recombines that pair to exactly \<open>v\<close>, negative values included; the
  elements of a LongArray come back bit for bit.
\<close>

theorem long_split_combine_roundtrip:
  "- (2 ^ 63) \<le> v \<Longrightarrow> v < 2 ^ 63 \<Longrightarrow>
     (\<exists>p. convertToPrismarineValue_Long v = Some p \<and> convertValue_long p = v) \<and>
     (\<exists>ps. convertToPrismarineValue_LongArray arr = map Some ps \<and> convertValue_longArray ps = arr)"
  using long_roundtrip_one [of v] longArray_roundtrip [of arr] by simp

theorem long_split_combine_roundtrip_witness:
  "- (2 ^ 63) \<le> (- 2 :: int) \<and> (- 2 :: int) < 2 ^ 63 \<and>
   convertToPrismarineValue_Long (- 2) = Some (HighLow (- 1) 4294967294) \<and>
   convertValue_long (HighLow (- 1) 4294967294) = - 2 \<and>
   (\<exists>ps. convertToPrismarineValue_LongArray [- 1, 5] = map Some ps \<and>
         convertValue_longArray ps = [- 1, 5])"
proof -
  have h: "- (2 ^ 63) \<le> (- 2 :: int)" "(- 2 :: int) < 2 ^ 63" by simp_all
  have s: "convertToPrismarineValue_Long (- 2) = Some (HighLow (- 1) 4294967294)"
    by (simp add: convertToPrismarineValue_Long_def Number_of_BigInt_def)
  from long_split_combine_roundtrip [OF h, of "[- 1, 5]"] s h show ?thesis
    by auto
qed

section \<open>The two header parsers agree\<close>

lemma digit_char_value: "d < 10 \<Longrightarrow> digit_value (''0123456789'' ! d) = d"
proof -
  assume "d < 10"
  then have "d \<in> {0, 1, 2, 3, 4, 5, 6, 7, 8, 9}" by auto
  then show ?thesis by (auto simp: digit_value_def)
qed

lemma digit_char_not_comma: "d < 10 \<Longrightarrow> ''0123456789'' ! d \<noteq> CHR '',''"
proof -
  assume "d < 10"
  then have "d \<in> {0, 1, 2, 3, 4, 5, 6, 7, 8, 9}" by auto
  then show ?thesis by auto
qed

lemma nat_of_string_of_nat: "nat_of_string (string_of_nat n) = n"
proof (induction n rule: string_of_nat.induct)
  case (1 n)
  show ?case
  proof (cases "n < 10")
    case True
    then show ?thesis
      by (subst string_of_nat.simps) (simp add: nat_of_string_def digit_char_value)
  next
    case False
    with 1 have ih: "nat_of_string (string_of_nat (n div 10)) = n div 10" by simp
    have "nat_of_string (string_of_nat n) =
            10 * nat_of_string (string_of_nat (n div 10)) + digit_value (''0123456789'' ! (n mod 10))"
      using False by (subst string_of_nat.simps) (simp add: nat_of_string_def)
    also have "\<dots> = 10 * (n div 10) + n mod 10"
      by (simp add: ih digit_char_value)
    finally show ?thesis by simp
  qed
qed

lemma string_of_nat_inj: "string_of_nat a = string_of_nat b \<Longrightarrow> a = b"
  by (metis nat_of_string_of_nat)

lemma comma_notin_string_of_nat: "CHR '','' \<notin> set (string_of_nat n)"
proof (induction n rule: string_of_nat.induct)
  case (1 n)
  show ?case
  proof (cases "n < 10")
    case True
    then show ?thesis
      using digit_char_not_comma [of n] by (subst string_of_nat.simps) simp
  next
    case False
    with 1 have "CHR '','' \<notin> set (string_of_nat (n div 10))" by simp
    moreover have "''0123456789'' ! (n mod 10) \<noteq> CHR '',''"
      by (rule digit_char_not_comma) simp
    ultimately show ?thesis
      using False by (subst string_of_nat.simps) auto
  qed
qed

lemma chunkKey_inj: "chunkKey x z = chunkKey x' z' \<Longrightarrow> x = x' \<and> z = z'"
proof -
  assume "chunkKey x z = chunkKey x' z'"
  then have "string_of_nat x @ CHR '','' # string_of_nat z = string_of_nat x' @ CHR '','' # string_of_nat z'"
    by (simp add: chunkKey_def)
  then have "string_of_nat x = string_of_nat x' \<and> string_of_nat z = string_of_nat z'"
    using comma_notin_string_of_nat
    by (simp add: append_Cons_eq_iff)
  then show ?thesis by (auto dest: string_of_nat_inj)
qed

lemma slot_key_inj:
  "chunkKey (i mod 32) (i div 32) = chunkKey (j mod 32) (j div 32) \<Longrightarrow> i = j"
proof -
  assume "chunkKey (i mod 32) (i div 32) = chunkKey (j mod 32) (j div 32)"
  then have "i mod 32 = j mod 32" "i div 32 = j div 32"
    by (auto dest: chunkKey_inj)
  then show ?thesis
    by (metis div_mult_mod_eq)
qed

lemma nbt_slot_eq:
  "nbt_slot buffer i r =
     (if slot_skipped buffer i then r
      else r\<lparr>rf_chunks := (rf_chunks r)[i := Some (nbt_entry buffer i)],
             rf_chunkCount := rf_chunkCount r + 1\<rparr>)"
  by (simp add: nbt_slot_def slot_skipped_def nbt_entry_def Let_def)

lemma mca_slot_eq:
  "mca_slot buffer i r =
     (if slot_skipped buffer i then r
      else r\<lparr>rd_chunks := AList.update (chunkKey (i mod 32) (i div 32)) (mca_entry buffer i) (rd_chunks r),
             rd_availableChunks := rd_availableChunks r @ [(i mod 32, i div 32)]\<rparr>)"
  by (simp add: mca_slot_def slot_skipped_def mca_entry_def Let_def)

lemma nbt_fold_chunks:
  "n \<le> 1024 \<Longrightarrow>
     length (rf_chunks (fold (nbt_slot buffer) [0..<n] nbt_init)) = 1024 \<and>
     (\<forall>i<1024. rf_chunks (fold (nbt_slot buffer) [0..<n] nbt_init) ! i =
        (if i < n \<and> \<not> slot_skipped buffer i then Some (nbt_entry buffer i) else None)) \<and>
     rf_chunkCount (fold (nbt_slot buffer) [0..<n] nbt_init) =
       length (filter (\<lambda>i. \<not> slot_skipped buffer i) [0..<n])"
proof (induction n)
  case 0
  then show ?case by (simp add: nbt_init_def)
next
  case (Suc n)
  define r where "r = fold (nbt_slot buffer) [0..<n] nbt_init"
  have step: "fold (nbt_slot buffer) [0..<Suc n] nbt_init = nbt_slot buffer n r"
    by (simp add: r_def)
  from Suc have ih:
    "length (rf_chunks r) = 1024"
    "\<And>i. i < 1024 \<Longrightarrow> rf_chunks r ! i =
        (if i < n \<and> \<not> slot_skipped buffer i then Some (nbt_entry buffer i) else None)"
    "rf_chunkCount r = length (filter (\<lambda>i. \<not> slot_skipped buffer i) [0..<n])"
    by (simp_all add: r_def)
  have n: "n < 1024" using Suc.prems by simp
  show ?case
    unfolding step nbt_slot_eq [of buffer n r]
    using ih n by (auto simp: nth_list_update less_Suc_eq)
qed

lemma mca_fold_chunks:
  "n \<le> 1024 \<Longrightarrow>
     (\<forall>i<1024. map_of (rd_chunks (fold (mca_slot buffer) [0..<n] mca_init))
                  (chunkKey (i mod 32) (i div 32)) =
        (if i < n \<and> \<not> slot_skipped buffer i then Some (mca_entry buffer i) else None)) \<and>
     rd_availableChunks (fold (mca_slot buffer) [0..<n] mca_init) =
       map (\<lambda>i. (i mod 32, i div 32)) (filter (\<lambda>i. \<not> slot_skipped buffer i) [0..<n])"
proof (induction n)
  case 0
  then show ?case by (simp add: mca_init_def)
next
  case (Suc n)
  define r where "r = fold (mca_slot buffer) [0..<n] mca_init"
  have step: "fold (mca_slot buffer) [0..<Suc n] mca_init = mca_slot buffer n r"
    by (simp add: r_def)
  from Suc have ih:
    "\<And>i. i < 1024 \<Longrightarrow> map_of (rd_chunks r) (chunkKey (i mod 32) (i div 32)) =
        (if i < n \<and> \<not> slot_skipped buffer i then Some (mca_entry buffer i) else None)"
    "rd_availableChunks r =
       map (\<lambda>i. (i mod 32, i div 32)) (filter (\<lambda>i. \<not> slot_skipped buffer i) [0..<n])"
    by (simp_all add: r_def)
  show ?case
    unfolding step mca_slot_eq [of buffer n r]
    using ih by (auto simp: update_conv' less_Suc_eq dest: slot_key_inj)
qed

text \<open>
  C10. For every buffer and every slot \<open>i < 1024\<close>, the header parser of the MCA module
  and the one of the NBT region module either both skip the slot (exactly when its
  3-byte offset and its sector count are both zero) or both hold an entry for it, with
  \<open>x = i mod 32\<close>, \<open>z = i div 32\<close> and the same offset, sector count and timestamp; the
  MCA module's list of available chunks is the list of the slots the NBT module holds,
  in slot order, and the NBT module's chunk count is its length.
\<close>

theorem region_header_parsers_agree:
  "i < 1024 \<Longrightarrow>
     (case (map_of (rd_chunks (mca_parseRegionHeader buffer)) (chunkKey (i mod 32) (i div 32)),
            rf_chunks (nbt_parseRegionHeader buffer) ! i) of
        (None, None) \<Rightarrow>
           read3 buffer (int i * 4) = 0 \<and> elemAt buffer (int i * 4 + 3) = Some 0
      | (Some loc, Some info) \<Rightarrow>
           \<not> (read3 buffer (int i * 4) = 0 \<and> elemAt buffer (int i * 4 + 3) = Some 0) \<and>
           cl_x loc = i mod 32 \<and> rc_x info = i mod 32 \<and>
           cl_z loc = i div 32 \<and> rc_z info = i div 32 \<and>
           cl_offset loc = rc_offset info \<and>
           cl_sectorCount loc = rc_sectorCount info \<and>
           cl_timestamp loc = rc_timestamp info
      | _ \<Rightarrow> False) \<and>
     rd_availableChunks (mca_parseRegionHeader buffer) =
       map (\<lambda>j. (j mod 32, j div 32))
         (filter (\<lambda>j. rf_chunks (nbt_parseRegionHeader buffer) ! j \<noteq> None) [0..<1024]) \<and>
     rf_chunkCount (nbt_parseRegionHeader buffer) =
       length (rd_availableChunks (mca_parseRegionHeader buffer))"
proof -
  assume i: "i < 1024"
  have nbt: "rf_chunks (nbt_parseRegionHeader buffer) ! j =
        (if \<not> slot_skipped buffer j then Some (nbt_entry buffer j) else None)" if "j < 1024" for j
    using nbt_fold_chunks [of 1024 buffer] that
    by (simp add: nbt_parseRegionHeader_def)
  have cnt: "rf_chunkCount (nbt_parseRegionHeader buffer) =
       length (filter (\<lambda>i. \<not> slot_skipped buffer i) [0..<1024])"
    using nbt_fold_chunks [of 1024 buffer]
    by (simp add: nbt_parseRegionHeader_def)
  have mca: "map_of (rd_chunks (mca_parseRegionHeader buffer)) (chunkKey (j mod 32) (j div 32)) =
        (if \<not> slot_skipped buffer j then Some (mca_entry buffer j) else None)" if "j < 1024" for j
    using mca_fold_chunks [of 1024 buffer] that
    by (simp add: mca_parseRegionHeader_def)
  have av: "rd_availableChunks (mca_parseRegionHeader buffer) =
       map (\<lambda>i. (i mod 32, i div 32)) (filter (\<lambda>i. \<not> slot_skipped buffer i) [0..<1024])"
    using mca_fold_chunks [of 1024 buffer]
    by (simp add: mca_parseRegionHeader_def)
  have flt: "filter (\<lambda>j. rf_chunks (nbt_parseRegionHeader buffer) ! j \<noteq> None) [0..<1024] =
        filter (\<lambda>i. \<not> slot_skipped buffer i) [0..<1024]"
    by (rule filter_cong) (simp_all add: nbt)
  show ?thesis
    unfolding flt av cnt
    using i by (simp add: nbt mca slot_skipped_def mca_entry_def nbt_entry_def)
qed

lemma read3_header_example: "read3 [0, 0, 2, 1] 0 = 2"
  by (simp add: read3_def elemAt_def int32_of_def ToInt32_def shl32_def bor32_def)

theorem region_header_parsers_agree_witness:
  "(0 :: nat) < 1024 \<and>
   (\<exists>loc info.
      map_of (rd_chunks (mca_parseRegionHeader [0, 0, 2, 1])) (chunkKey 0 0) = Some loc \<and>
      rf_chunks (nbt_parseRegionHeader [0, 0, 2, 1]) ! 0 = Some info \<and>
      cl_offset loc = 2 \<and> rc_offset info = 2 \<and>
      cl_sectorCount loc = Some 1 \<and> rc_sectorCount info = Some 1 \<and>
      cl_timestamp loc = rc_timestamp info) \<and>
   rf_chunkCount (nbt_parseRegionHeader [0, 0, 2, 1]) =
     length (rd_availableChunks (mca_parseRegionHeader [0, 0, 2, 1]))"
proof -
  have h: "(0 :: nat) < 1024" by simp
  have p: "\<not> slot_skipped [0, 0, 2, 1] 0"
    by (simp add: slot_skipped_def read3_header_example)
  have "\<forall>i<1024. rf_chunks (nbt_parseRegionHeader [0, 0, 2, 1]) ! i =
      (if \<not> slot_skipped [0, 0, 2, 1] i then Some (nbt_entry [0, 0, 2, 1] i) else None)"
    using nbt_fold_chunks [of 1024 "[0, 0, 2, 1]"] by (simp add: nbt_parseRegionHeader_def)
  from this [rule_format, of 0] p
  have n: "rf_chunks (nbt_parseRegionHeader [0, 0, 2, 1]) ! 0 = Some (nbt_entry [0, 0, 2, 1] 0)"
    by simp
  have "\<forall>i<1024. map_of (rd_chunks (mca_parseRegionHeader [0, 0, 2, 1])) (chunkKey (i mod 32) (i div 32)) =
      (if \<not> slot_skipped [0, 0, 2, 1] i then Some (mca_entry [0, 0, 2, 1] i) else None)"
    using mca_fold_chunks [of 1024 "[0, 0, 2, 1]"] by (simp add: mca_parseRegionHeader_def)
  from this [rule_format, of 0] p
  have m: "map_of (rd_chunks (mca_parseRegionHeader [0, 0, 2, 1])) (chunkKey 0 0) =
      Some (mca_entry [0, 0, 2, 1] 0)"
    by simp
  have e: "cl_offset (mca_entry [0, 0, 2, 1] 0) = 2" "rc_offset (nbt_entry [0, 0, 2, 1] 0) = 2"
    "cl_sectorCount (mca_entry [0, 0, 2, 1] 0) = Some 1"
    "rc_sectorCount (nbt_entry [0, 0, 2, 1] 0) = Some 1"
    by (simp_all add: mca_entry_def nbt_entry_def read3_header_example elemAt_def)
  from region_header_parsers_agree [OF h, of "[0, 0, 2, 1]"] n m e h show ?thesis
    by simp
qed


section \<open>Chunk extraction\<close>

lemma slice_payload:
  assumes "0 \<le> start"
  shows "slice xs start fin = payload xs start fin"
proof -
  let ?len = "int (length xs)"
  let ?final = "if fin < 0 then max (?len + fin) 0 else min fin ?len"
  have sl: "slice xs start fin = take (nat (?final - min start ?len)) (drop (nat (min start ?len)) xs)"
    using assms by (simp add: slice_def Let_def)
  show ?thesis
  proof (cases "start \<le> ?len")
    case False
    then have "drop (nat start) xs = []" "drop (nat (min start ?len)) xs = []"
      using assms by simp_all
    then show ?thesis
      by (simp add: sl payload_def)
  next
    case True
    then have m: "min start ?len = start"
      by simp
    have l: "length (drop (nat start) xs) = nat (?len - start)"
      using assms by (simp add: nat_diff_distrib)
    show ?thesis
    proof (cases "start \<le> fin")
      case True
      then have "take (nat (min fin ?len - start)) (drop (nat start) xs) =
                 take (nat (fin - start)) (drop (nat start) xs)"
        using l by (cases "fin \<le> ?len") simp_all
      with True assms show ?thesis
        by (simp add: sl m payload_def)
    next
      case False
      show ?thesis
      proof (cases "0 \<le> fin")
        case True
        with False assms show ?thesis
          by (simp add: sl m payload_def)
      next
        case neg: False
        have "take (nat (max (?len + fin) 0 - start)) (drop (nat start) xs) =
              take (nat (?len + fin - start)) (drop (nat start) xs)"
          using assms by (cases "0 \<le> ?len + fin") simp_all
        with neg False show ?thesis
          by (simp add: sl m payload_def)
      qed
    qed
  qed
qed

lemma int32_of_elemAt_nonneg: "0 \<le> int32_of (elemAt buffer k) \<and> int32_of (elemAt buffer k) < 256"
proof (cases "elemAt buffer k")
  case None
  then show ?thesis by (simp add: int32_of_def)
next
  case (Some b)
  then have "b = uint (buffer ! nat k)"
    by (simp add: elemAt_def split: if_splits)
  moreover have "uint (buffer ! nat k) < 256"
    using uint_bounded [of "buffer ! nat k"] by simp
  ultimately have "0 \<le> b" "b < 256"
    by simp_all
  then have "ToInt32 b = b"
    by (simp add: ToInt32_def signed_take_bit_int_eq_self)
  with Some \<open>0 \<le> b\<close> \<open>b < 256\<close> show ?thesis
    by (simp add: int32_of_def)
qed

lemma ToInt32_small: "0 \<le> x \<Longrightarrow> x < 2 ^ 24 \<Longrightarrow> ToInt32 x = x"
  by (simp add: ToInt32_def signed_take_bit_int_eq_self)

lemma bor32_small:
  assumes "0 \<le> x" "x < 2 ^ 24" "0 \<le> y" "y < 2 ^ 24"
  shows "0 \<le> bor32 x y \<and> bor32 x y < 2 ^ 24"
proof -
  have "bor32 x y = x OR y"
    using assms by (simp add: bor32_def ToInt32_small)
  moreover have "x OR y < 2 ^ 24"
    using assms by (intro OR_upper) simp_all
  moreover have "0 \<le> x OR y"
    using assms by simp
  ultimately show ?thesis
    by simp
qed

lemma read3_nonneg: "0 \<le> read3 buffer offset"
proof -
  define a where "a = int32_of (elemAt buffer offset)"
  define b where "b = int32_of (elemAt buffer (offset + 1))"
  define c where "c = int32_of (elemAt buffer (offset + 2))"
  have ra: "0 \<le> a" "a < 256" and rb: "0 \<le> b" "b < 256" and rc: "0 \<le> c" "c < 256"
    using int32_of_elemAt_nonneg [of buffer] by (simp_all add: a_def b_def c_def)
  have sa: "shl32 a 16 = a * 65536"
    using ra by (simp add: shl32_def ToInt32_def signed_take_bit_int_eq_self push_bit_eq_mult)
  have sb: "shl32 b 8 = b * 256"
    using rb by (simp add: shl32_def ToInt32_def signed_take_bit_int_eq_self push_bit_eq_mult)
  have "0 \<le> bor32 (a * 65536) (b * 256) \<and> bor32 (a * 65536) (b * 256) < 2 ^ 24"
    using ra rb by (intro bor32_small) simp_all
  then have "0 \<le> bor32 (bor32 (a * 65536) (b * 256)) c"
    using rc bor32_small [of "bor32 (a * 65536) (b * 256)" c] by simp
  then show ?thesis
    by (simp add: read3_def a_def b_def c_def sa [unfolded a_def] sb [unfolded b_def])
qed

lemma chunkLoop_skips_failed:
  "extractChunk ungzip inflate parseNbtBuffer buffer badChunk
       (snd (chunkLoop ungzip inflate parseNbtBuffer buffer before n)) = None \<Longrightarrow>
     chunkLoop ungzip inflate parseNbtBuffer buffer (before @ Some badChunk # after) n =
     chunkLoop ungzip inflate parseNbtBuffer buffer (before @ after) n"
proof (induction before arbitrary: n)
  case Nil
  then show ?case by simp
next
  case (Cons c cs)
  show ?case
  proof (cases c)
    case None
    then show ?thesis using Cons by simp
  next
    case (Some info)
    show ?thesis
    proof (cases "extractChunk ungzip inflate parseNbtBuffer buffer info n")
      case None
      then show ?thesis using Cons Some by simp
    next
      case (Some r)
      obtain chunkData k where r: "r = (chunkData, k)"
        by (cases r)
      with Some Cons.prems \<open>c = Some info\<close>
      have "extractChunk ungzip inflate parseNbtBuffer buffer badChunk
              (snd (chunkLoop ungzip inflate parseNbtBuffer buffer cs k)) = None"
        by (simp split: prod.splits)
      then have "chunkLoop ungzip inflate parseNbtBuffer buffer (cs @ Some badChunk # after) k =
                 chunkLoop ungzip inflate parseNbtBuffer buffer (cs @ after) k"
        by (rule Cons.IH)
      with Some r \<open>c = Some info\<close> show ?thesis
        by simp
    qed
  qed
qed

lemma header_entries:
  assumes "i < 1024" and "\<not> slot_skipped buffer i"
  shows "map_of (rd_chunks (mca_parseRegionHeader buffer)) (chunkKey (i mod 32) (i div 32)) =
           Some (mca_entry buffer i)"
    and "rf_chunks (nbt_parseRegionHeader buffer) ! i = Some (nbt_entry buffer i)"
  using assms mca_fold_chunks [of 1024 buffer] nbt_fold_chunks [of 1024 buffer]
  by (simp_all add: mca_parseRegionHeader_def nbt_parseRegionHeader_def)

text \<open>
  C8, as amended. Every slot \<open>i\<close> of the header that is not skipped gives a chunk entry,
  whose offset is never negative. For every buffer and every entry with such an offset,
  whatever length the chunk announces, the chunk is read at byte \<open>offset * 4096\<close> as a
  4-byte length, a compression type and the payload, where the payload is the announced
  range as far as the buffer holds it (\<^verbatim>\<open>slice\<close> clamps, it does not fail). Type 1 selects
  \<^verbatim>\<open>ungzip\<close>, 2 \<^verbatim>\<open>inflate\<close>, 3 no decompression. Every other value, also a type byte that lies
  outside the buffer, gives \<^verbatim>\<open>null\<close>, and so does a decompressor or a parser that throws;
  nothing is raised. What a decompressor returns is not checked: \<^verbatim>\<open>readChunkData\<close> returns
  it, \<^verbatim>\<open>undefined\<close> included, and \<^verbatim>\<open>extractChunk\<close> hands it to the parser. In the chunk loop
  a chunk whose extraction is \<^verbatim>\<open>null\<close> is passed over, and the loop gives what it gives
  without that chunk.
\<close>

theorem chunk_extraction_outcomes:
  "0 \<le> cl_offset (mca_entry buffer i) \<and> 0 \<le> rc_offset (nbt_entry buffer i) \<and>
   (i < 1024 \<and> \<not> slot_skipped buffer i \<longrightarrow>
      map_of (rd_chunks (mca_parseRegionHeader buffer)) (chunkKey (i mod 32) (i div 32)) =
        Some (mca_entry buffer i) \<and>
      rf_chunks (nbt_parseRegionHeader buffer) ! i = Some (nbt_entry buffer i)) \<and>
   (elemAt buffer (cl_offset location * 4096 + 4) \<notin> {Some 1, Some 2, Some 3} \<longrightarrow>
      readChunkData ungzip inflate buffer location = Null) \<and>
   (0 \<le> cl_offset location \<longrightarrow>
      readChunkData ungzip inflate buffer location =
        (let chunkOffset = cl_offset location * 4096;
             compressionType = elemAt buffer (chunkOffset + 4);
             compressedData =
               payload buffer (chunkOffset + 5) (chunkOffset + 5 + read4 buffer chunkOffset - 1)
         in if compressionType = Some 1 then
              (case ungzip compressedData of
                 PakoThrows \<Rightarrow> Null | PakoUndefined \<Rightarrow> Undefined | PakoData d \<Rightarrow> Data d)
            else if compressionType = Some 2 then
              (case inflate compressedData of
                 PakoThrows \<Rightarrow> Null | PakoUndefined \<Rightarrow> Undefined | PakoData d \<Rightarrow> Data d)
            else if compressionType = Some 3 then Data compressedData
            else Null)) \<and>
   (rc_compressionType chunkInfo \<notin> {Some 1, Some 2, Some 3} \<longrightarrow>
      extractChunk ungzip inflate parseNbtBuffer buffer chunkInfo n = None) \<and>
   (0 \<le> rc_offset chunkInfo \<longrightarrow>
      extractChunk ungzip inflate parseNbtBuffer buffer chunkInfo n =
        (let chunkOffset = rc_offset chunkInfo * 4096;
             compressedData =
               payload buffer (chunkOffset + 5) (chunkOffset + 5 + rc_dataLength chunkInfo)
         in if rc_compressionType chunkInfo = Some 1 then
              (case ungzip compressedData of
                 PakoThrows \<Rightarrow> None
               | PakoUndefined \<Rightarrow> parseNbtBuffer None n
               | PakoData d \<Rightarrow> parseNbtBuffer (Some d) n)
            else if rc_compressionType chunkInfo = Some 2 then
              (case inflate compressedData of
                 PakoThrows \<Rightarrow> None
               | PakoUndefined \<Rightarrow> parseNbtBuffer None n
               | PakoData d \<Rightarrow> parseNbtBuffer (Some d) n)
            else if rc_compressionType chunkInfo = Some 3 then parseNbtBuffer (Some compressedData) n
            else None)) \<and>
   (extractChunk ungzip inflate parseNbtBuffer buffer badChunk
        (snd (chunkLoop ungzip inflate parseNbtBuffer buffer before n)) = None \<longrightarrow>
      chunkLoop ungzip inflate parseNbtBuffer buffer (before @ Some badChunk # after) n =
      chunkLoop ungzip inflate parseNbtBuffer buffer (before @ after) n)"
proof -
  have o: "0 \<le> cl_offset (mca_entry buffer i)" "0 \<le> rc_offset (nbt_entry buffer i)"
    by (simp_all add: mca_entry_def nbt_entry_def read3_nonneg)
  have a: "elemAt buffer (cl_offset location * 4096 + 4) \<notin> {Some 1, Some 2, Some 3} \<longrightarrow>
      readChunkData ungzip inflate buffer location = Null"
    by (simp add: readChunkData_def Let_def)
  have b: "readChunkData ungzip inflate buffer location =
        (let chunkOffset = cl_offset location * 4096;
             compressionType = elemAt buffer (chunkOffset + 4);
             compressedData =
               payload buffer (chunkOffset + 5) (chunkOffset + 5 + read4 buffer chunkOffset - 1)
         in if compressionType = Some 1 then
              (case ungzip compressedData of
                 PakoThrows \<Rightarrow> Null | PakoUndefined \<Rightarrow> Undefined | PakoData d \<Rightarrow> Data d)
            else if compressionType = Some 2 then
              (case inflate compressedData of
                 PakoThrows \<Rightarrow> Null | PakoUndefined \<Rightarrow> Undefined | PakoData d \<Rightarrow> Data d)
            else if compressionType = Some 3 then Data compressedData
            else Null)"
    if "0 \<le> cl_offset location"
  proof -
    from that have "0 \<le> cl_offset location * 4096 + 5"
      by simp
    then have "slice buffer (cl_offset location * 4096 + 5)
                 (cl_offset location * 4096 + 5 + read4 buffer (cl_offset location * 4096) - 1) =
               payload buffer (cl_offset location * 4096 + 5)
                 (cl_offset location * 4096 + 5 + read4 buffer (cl_offset location * 4096) - 1)"
      by (rule slice_payload)
    then show ?thesis
      by (simp add: readChunkData_def returned_def Let_def)
  qed
  have c: "rc_compressionType chunkInfo \<notin> {Some 1, Some 2, Some 3} \<longrightarrow>
      extractChunk ungzip inflate parseNbtBuffer buffer chunkInfo n = None"
    by (simp add: extractChunk_def Let_def)
  have d: "extractChunk ungzip inflate parseNbtBuffer buffer chunkInfo n =
        (let chunkOffset = rc_offset chunkInfo * 4096;
             compressedData =
               payload buffer (chunkOffset + 5) (chunkOffset + 5 + rc_dataLength chunkInfo)
         in if rc_compressionType chunkInfo = Some 1 then
              (case ungzip compressedData of
                 PakoThrows \<Rightarrow> None
               | PakoUndefined \<Rightarrow> parseNbtBuffer None n
               | PakoData d \<Rightarrow> parseNbtBuffer (Some d) n)
            else if rc_compressionType chunkInfo = Some 2 then
              (case inflate compressedData of
                 PakoThrows \<Rightarrow> None
               | PakoUndefined \<Rightarrow> parseNbtBuffer None n
               | PakoData d \<Rightarrow> parseNbtBuffer (Some d) n)
            else if rc_compressionType chunkInfo = Some 3 then parseNbtBuffer (Some compressedData) n
            else None)"
    if "0 \<le> rc_offset chunkInfo"
  proof -
    from that have "0 \<le> rc_offset chunkInfo * 4096 + 5"
      by simp
    then have "slice buffer (rc_offset chunkInfo * 4096 + 5)
                 (rc_offset chunkInfo * 4096 + 5 + rc_dataLength chunkInfo) =
               payload buffer (rc_offset chunkInfo * 4096 + 5)
                 (rc_offset chunkInfo * 4096 + 5 + rc_dataLength chunkInfo)"
      by (rule slice_payload)
    then show ?thesis
      by (simp add: extractChunk_def parsed_def Let_def)
  qed
  show ?thesis
    using o a b c d header_entries [of i buffer]
      chunkLoop_skips_failed [of ungzip inflate parseNbtBuffer buffer badChunk before n after]
    by blast
qed

lemma truncated_header:
  "read3 truncated_region 0 = 2" "elemAt truncated_region 3 = Some 1"
  "read3 unknown_region 0 = 2" "elemAt unknown_region 3 = Some 1"
  by (simp_all add: truncated_region_def unknown_region_def read3_def elemAt_def int32_of_def
      ToInt32_def shl32_def bor32_def)

lemma truncated_chunk:
  "read4 truncated_region 8192 = 10" "elemAt truncated_region 8196 = Some 3"
  "read4 unknown_region 8192 = 10" "elemAt unknown_region 8196 = Some 9"
  by (simp_all add: truncated_region_def unknown_region_def read4_def elemAt_def nth_append
      int32_of_def ToInt32_def shl32_def bor32_def)

lemma truncated_slice: "slice truncated_region 8197 8206 = [7, 8]"
  by (simp add: truncated_region_def slice_def)

lemma truncated_payload: "payload truncated_region 8197 8206 = [7, 8]"
  by (simp add: truncated_region_def payload_def)

lemma truncated_entries:
  "mca_entry truncated_region 0 =
     \<lparr>cl_x = 0, cl_z = 0, cl_offset = 2, cl_sectorCount = Some 1,
      cl_timestamp = read4 truncated_region 4096\<rparr>"
  "nbt_entry truncated_region 0 =
     \<lparr>rc_x = 0, rc_z = 0, rc_offset = 2, rc_sectorCount = Some 1,
      rc_timestamp = read4 truncated_region 4096, rc_compressionType = Some 3, rc_dataLength = 9\<rparr>"
  "mca_entry unknown_region 0 =
     \<lparr>cl_x = 0, cl_z = 0, cl_offset = 2, cl_sectorCount = Some 1,
      cl_timestamp = read4 unknown_region 4096\<rparr>"
  "nbt_entry unknown_region 0 =
     \<lparr>rc_x = 0, rc_z = 0, rc_offset = 2, rc_sectorCount = Some 1,
      rc_timestamp = read4 unknown_region 4096, rc_compressionType = Some 9, rc_dataLength = 9\<rparr>"
  by (simp_all add: mca_entry_def nbt_entry_def truncated_header truncated_chunk)

lemma truncated_not_skipped: "\<not> slot_skipped truncated_region 0"
  by (simp add: slot_skipped_def truncated_header)

theorem chunk_extraction_outcomes_witness:
  "(0 :: nat) < 1024 \<and> \<not> slot_skipped truncated_region 0 \<and>
   map_of (rd_chunks (mca_parseRegionHeader truncated_region)) (chunkKey 0 0) =
     Some (mca_entry truncated_region 0) \<and>
   rf_chunks (nbt_parseRegionHeader truncated_region) ! 0 = Some (nbt_entry truncated_region 0) \<and>
   0 \<le> cl_offset (mca_entry truncated_region 0) \<and>
   readChunkData pako_throws pako_throws truncated_region (mca_entry truncated_region 0) = Data [7, 8] \<and>
   0 \<le> rc_offset (nbt_entry truncated_region 0) \<and>
   extractChunk pako_throws pako_throws parse_bytes truncated_region (nbt_entry truncated_region 0) 0 =
     Some ([7, 8], 1) \<and>
   elemAt unknown_region (cl_offset (mca_entry unknown_region 0) * 4096 + 4) \<notin> {Some 1, Some 2, Some 3} \<and>
   readChunkData pako_throws pako_throws unknown_region (mca_entry unknown_region 0) = Null \<and>
   rc_compressionType (nbt_entry unknown_region 0) \<notin> {Some 1, Some 2, Some 3} \<and>
   extractChunk pako_throws pako_throws parse_bytes unknown_region (nbt_entry unknown_region 0) 0 = None \<and>
   extractChunk pako_throws pako_throws parse_bytes truncated_region (nbt_entry unknown_region 0)
     (snd (chunkLoop pako_throws pako_throws parse_bytes truncated_region
             [Some (nbt_entry truncated_region 0)] 0)) = None \<and>
   chunkLoop pako_throws pako_throws parse_bytes truncated_region
       [Some (nbt_entry truncated_region 0), Some (nbt_entry unknown_region 0)] 0 =
     chunkLoop pako_throws pako_throws parse_bytes truncated_region
       [Some (nbt_entry truncated_region 0)] 0"
proof -
  have f: "extractChunk pako_throws pako_throws parse_bytes truncated_region (nbt_entry unknown_region 0) k = None"
    for k
    by (simp add: extractChunk_def truncated_entries)
  from chunk_extraction_outcomes [where buffer = truncated_region and i = 0
      and location = "mca_entry truncated_region 0" and chunkInfo = "nbt_entry truncated_region 0"
      and ungzip = pako_throws and inflate = pako_throws and parseNbtBuffer = parse_bytes
      and n = 0 and badChunk = "nbt_entry unknown_region 0"
      and before = "[Some (nbt_entry truncated_region 0)]" and after = "[]"]
  have a: "map_of (rd_chunks (mca_parseRegionHeader truncated_region)) (chunkKey 0 0) =
       Some (mca_entry truncated_region 0)"
    "rf_chunks (nbt_parseRegionHeader truncated_region) ! 0 = Some (nbt_entry truncated_region 0)"
    "readChunkData pako_throws pako_throws truncated_region (mca_entry truncated_region 0) = Data [7, 8]"
    "extractChunk pako_throws pako_throws parse_bytes truncated_region (nbt_entry truncated_region 0) 0 =
       Some ([7, 8], 1)"
    "chunkLoop pako_throws pako_throws parse_bytes truncated_region
       [Some (nbt_entry truncated_region 0), Some (nbt_entry unknown_region 0)] 0 =
     chunkLoop pako_throws pako_throws parse_bytes truncated_region
       [Some (nbt_entry truncated_region 0)] 0"
    using truncated_not_skipped f
    by (simp_all add: truncated_entries truncated_chunk truncated_payload Let_def parse_bytes_def)
  from chunk_extraction_outcomes [where buffer = unknown_region and i = 0
      and location = "mca_entry unknown_region 0" and chunkInfo = "nbt_entry unknown_region 0"
      and ungzip = pako_throws and inflate = pako_throws and parseNbtBuffer = parse_bytes
      and n = 0]
  have b: "readChunkData pako_throws pako_throws unknown_region (mca_entry unknown_region 0) = Null"
    "extractChunk pako_throws pako_throws parse_bytes unknown_region (nbt_entry unknown_region 0) 0 = None"
    by (simp_all add: truncated_entries truncated_chunk)
  show ?thesis
    using a b f truncated_not_skipped by (simp add: truncated_entries truncated_chunk)
qed

text \<open>
  The claim as it stands fails on a payload that runs past the end of the file: the one
  chunk of \<open>truncated_region\<close> announces bytes up to offset 8206 of a file of 8199 bytes,
  and \<^verbatim>\<open>readChunkData\<close> returns the two bytes that are there, not \<^verbatim>\<open>null\<close>; \<^verbatim>\<open>extractChunk\<close>
  hands them to the parser.
\<close>

theorem truncated_payload_counterexample:
  "map_of (rd_chunks (mca_parseRegionHeader truncated_region)) (chunkKey 0 0) =
     Some (mca_entry truncated_region 0) \<and>
   rf_chunks (nbt_parseRegionHeader truncated_region) ! 0 = Some (nbt_entry truncated_region 0) \<and>
   int (length truncated_region) <
     cl_offset (mca_entry truncated_region 0) * 4096 + 5 +
       read4 truncated_region (cl_offset (mca_entry truncated_region 0) * 4096) - 1 \<and>
   readChunkData pako_throws pako_throws truncated_region (mca_entry truncated_region 0) = Data [7, 8] \<and>
   extractChunk pako_throws pako_throws parse_bytes truncated_region (nbt_entry truncated_region 0) 0 =
     Some ([7, 8], 1)"
proof -
  have h: "map_of (rd_chunks (mca_parseRegionHeader truncated_region)) (chunkKey 0 0) =
       Some (mca_entry truncated_region 0)"
    "rf_chunks (nbt_parseRegionHeader truncated_region) ! 0 = Some (nbt_entry truncated_region 0)"
    using header_entries [of 0 truncated_region] truncated_not_skipped by simp_all
  have l: "int (length truncated_region) = 8199"
    by (simp add: truncated_region_def)
  have r: "readChunkData pako_throws pako_throws truncated_region (mca_entry truncated_region 0) = Data [7, 8]"
    by (simp add: readChunkData_def truncated_entries truncated_chunk truncated_slice Let_def)
  have e: "extractChunk pako_throws pako_throws parse_bytes truncated_region (nbt_entry truncated_region 0) 0 =
     Some ([7, 8], 1)"
    by (simp add: extractChunk_def truncated_entries truncated_slice Let_def parse_bytes_def)
  show ?thesis
    using h r e by (simp add: truncated_entries truncated_chunk l)
qed
section \<open>Trees: cloning and path resolution\<close>

lemma those_map_id:
  "those (map f xs) = Some ys \<Longrightarrow> (\<And>x y. x \<in> set xs \<Longrightarrow> f x = Some y \<Longrightarrow> y = x) \<Longrightarrow> ys = xs"
proof (induction xs arbitrary: ys)
  case Nil
  then show ?case by simp
next
  case (Cons x xs)
  then show ?case
    by (auto split: option.splits)
qed

lemma cloneValue_same: "cloneValue t v = Some v' \<Longrightarrow> v' = v"
proof (induction t v arbitrary: v' rule: cloneValue.induct)
  case (1 type v)
  show ?case
  proof (cases "type = TagList")
    case True
    with "1.prems" obtain t vs ys where v: "v = VList t vs"
      and ys: "those (map (\<lambda>e. if e = VHole then Some VHole else cloneValue t e) vs) = Some ys"
      and v': "v' = VList t ys"
      by (subst (asm) cloneValue.simps) (auto split: NbtValue.splits)
    have "ys = vs"
      using ys
    proof (rule those_map_id)
      fix x y assume "x \<in> set vs" "(if x = VHole then Some VHole else cloneValue t x) = Some y"
      then show "y = x"
        using "1.IH"(1) [OF True v] by (auto split: if_splits)
    qed
    with v v' show ?thesis by simp
  next
    case False
    show ?thesis
    proof (cases "type = TagCompound")
      case True
      let ?f = "\<lambda>(key, tag). case tag of
                  None \<Rightarrow> None
                | Some (t, e) \<Rightarrow> map_option (\<lambda>e'. (key, Some (t, e'))) (cloneValue t e)"
      from True "1.prems" obtain es ys where v: "v = VCompound es"
        and ys: "those (map ?f es) = Some ys" and v': "v' = VCompound ys"
        by (subst (asm) cloneValue.simps) (auto split: NbtValue.splits)
      have "ys = es"
        using ys
      proof (rule those_map_id)
        fix x y assume x: "x \<in> set es" and fx: "?f x = Some y"
        obtain k tag where xe: "x = (k, tag)" by (cases x)
        with fx obtain t e w where tag: "tag = Some (t, e)" and w: "cloneValue t e = Some w"
          and y: "y = (k, Some (t, w))"
          by (auto split: option.splits)
        from "1.IH"(2) [OF True v x xe [symmetric] tag refl w] have "w = e" .
        with y xe tag show "y = x" by simp
      qed
      with v v' show ?thesis by simp
    next
      case nc: False
      with False "1.prems" show ?thesis
        by (subst (asm) cloneValue.simps) (auto split: TagType.splits NbtValue.splits)
    qed
  qed
qed

lemma cloneTree_same: "cloneTree n = Some n' \<Longrightarrow> n' = n"
proof (induction n arbitrary: n' rule: cloneTree.induct)
  case (1 name type v children path)
  from "1.prems" obtain w where w: "cloneValue type v = Some w"
    by (auto split: option.splits)
  then have wv: "w = v" by (rule cloneValue_same)
  show ?case
  proof (cases children)
    case None
    with "1.prems" w wv show ?thesis by simp
  next
    case (Some cs)
    with "1.prems" w obtain ys where ys: "those (map cloneTree cs) = Some ys"
      and n': "n' = Node name type w (Some ys) path"
      by auto
    have "ys = cs"
      using ys
    proof (rule those_map_id)
      fix x y assume "x \<in> set cs" "cloneTree x = Some y"
      with "1.IH" [OF w Some] show "y = x" by simp
    qed
    with n' wv Some show ?thesis by simp
  qed
qed

lemma findNodeByPath_walk: "findNodeByPath root path = walk root (drop 1 path)"
  by (cases path; cases "tl path") (auto simp: findNodeByPath_def)


lemma walk_append:
  "walk n (segs @ rest) = (case walk n segs of None \<Rightarrow> None | Some m \<Rightarrow> walk m rest)"
  by (induction n segs rule: walk.induct) (auto split: option.splits)

lemma walk_single:
  "walk m [s] = (case node_children m of None \<Rightarrow> None | Some cs \<Rightarrow> find (\<lambda>c. node_name c = s) cs)"
  by (auto split: option.splits)

text \<open>
  C4, as amended. The empty path and the path that holds just the root's name resolve to
  the root. The first segment of a path is never compared with anything. For the
  segments after it the walk goes from the root through the first child of each name: the
  prefix of length \<open>k + 1\<close> resolves to the first child named \<open>path ! k\<close> of what the prefix
  of length \<open>k\<close> resolves to, and to \<^verbatim>\<open>null\<close> when there is no such child; once a prefix
  resolves to \<^verbatim>\<open>null\<close>, so does the whole path.
\<close>

theorem findNodeByPath_resolution:
  "findNodeByPath root [] = Some root \<and>
   findNodeByPath root [node_name root] = Some root \<and>
   (1 \<le> k \<and> k < length path \<longrightarrow>
      findNodeByPath root (take (Suc k) path) =
        (case findNodeByPath root (take k path) of
           None \<Rightarrow> None
         | Some n \<Rightarrow>
             (case node_children n of
                None \<Rightarrow> None
              | Some cs \<Rightarrow> find (\<lambda>c. node_name c = path ! k) cs))) \<and>
   (1 \<le> k \<and> k \<le> length path \<and> findNodeByPath root (take k path) = None \<longrightarrow>
      findNodeByPath root path = None) \<and>
   (path \<noteq> [] \<longrightarrow> findNodeByPath root (other # tl path) = findNodeByPath root path)"
proof -
  have a: "findNodeByPath root [] = Some root" "findNodeByPath root [node_name root] = Some root"
    by (simp_all add: findNodeByPath_def)
  have b: "findNodeByPath root (take (Suc k) path) =
        (case findNodeByPath root (take k path) of
           None \<Rightarrow> None
         | Some n \<Rightarrow>
             (case node_children n of
                None \<Rightarrow> None
              | Some cs \<Rightarrow> find (\<lambda>c. node_name c = path ! k) cs))"
    if k: "1 \<le> k" "k < length path"
  proof -
    have "take (Suc k) path = take k path @ [path ! k]"
      using k by (simp add: take_Suc_conv_app_nth)
    moreover have "drop 1 (take k path @ [path ! k]) = drop 1 (take k path) @ [path ! k]"
      using k by simp
    ultimately show ?thesis
      by (simp add: findNodeByPath_walk walk_append walk_single del: walk.simps split: option.splits)
  qed
  have c: "findNodeByPath root path = None"
    if k: "1 \<le> k" "k \<le> length path" and n: "findNodeByPath root (take k path) = None"
  proof -
    have "drop 1 path = drop 1 (take k path) @ drop k path"
    proof -
      have "drop 1 (take k path @ drop k path) = drop 1 (take k path) @ drop k path"
        using k by (cases "take k path") simp_all
      then show ?thesis by simp
    qed
    then show ?thesis
      using n by (simp add: findNodeByPath_walk walk_append)
  qed
  have d: "findNodeByPath root (other # tl path) = findNodeByPath root path" if "path \<noteq> []"
    using that by (cases path) (simp_all add: findNodeByPath_walk)
  from a b c d show ?thesis by blast
qed

lemma example_walks:
  "findNodeByPath example_root [''Data'', ''zz''] = None"
  "findNodeByPath example_root [''Data'', ''a'', ''1''] =
     Some (Node ''1'' TagInt (VNumber (Finite 6 0)) None [''Data'', ''a'', ''1''])"
  "findNodeByPath example_root [''Data'', ''a''] = Some example_list"
  by code_simp+

theorem findNodeByPath_resolution_witness:
  "(1 :: nat) \<le> 2 \<and> 2 < length [''Data'', ''zz'', ''0''] \<and>
   findNodeByPath example_root (take 2 [''Data'', ''zz'', ''0'']) = None \<and>
   findNodeByPath example_root [''Data'', ''zz'', ''0''] = None \<and>
   findNodeByPath example_root [node_name example_root] = Some example_root \<and>
   findNodeByPath example_root (''Region'' # tl [''Data'', ''a'', ''1'']) =
     Some (Node ''1'' TagInt (VNumber (Finite 6 0)) None [''Data'', ''a'', ''1''])"
proof -
  have h: "(1 :: nat) \<le> 2" "(2 :: nat) < length [''Data'', ''zz'', ''0'']"
    "(2 :: nat) \<le> length [''Data'', ''zz'', ''0'']"
    "findNodeByPath example_root (take 2 [''Data'', ''zz'', ''0'']) = None"
    by (simp_all add: example_walks)
  from findNodeByPath_resolution [of example_root 2 "[''Data'', ''zz'', ''0'']"] h
  have a: "findNodeByPath example_root [''Data'', ''zz'', ''0''] = None"
    and b: "findNodeByPath example_root [node_name example_root] = Some example_root"
    by blast+
  from findNodeByPath_resolution [of example_root 0 "[''Data'', ''a'', ''1'']" "''Region''"]
  have "findNodeByPath example_root (''Region'' # tl [''Data'', ''a'', ''1'']) =
      findNodeByPath example_root [''Data'', ''a'', ''1'']"
    by simp
  with a b h show ?thesis
    by (simp add: example_walks)
qed

text \<open>
  The claim as it stands fails on a singleton path that does not hold the root's name:
  the loop starts at index 1, runs no round, and the root is returned.
\<close>

theorem findNodeByPath_singleton_counterexample:
  "node_name example_root \<noteq> ''nope'' \<and> findNodeByPath example_root [''nope''] = Some example_root"
  by (simp add: findNodeByPath_def example_root_def)

section \<open>Trees: the order of a compound's children\<close>














































text \<open>Once a compound holds an \<^verbatim>\<open>undefined\<close> tag, the next edit throws while it clones.\<close>

lemma undefined_tag_throws:
  "cloneTree example_undefined = None"
  "addTag codeUnitCompare example_undefined [''Data''] ''e'' TagByte (VNumber (Finite 3 0)) = None"
  "deleteTag example_undefined [''Data'', ''d''] = None"
  "renameTag codeUnitCompare example_undefined [''Data'', ''d''] ''e'' = None"
  by code_simp+



section \<open>Trees: renaming under a list, adding under a taken name\<close>

text \<open>
  C9, as amended. \<^verbatim>\<open>renameTag\<close> on a path whose immediate parent is a List (or any node
  that is not a Compound) reports no error: it returns the deep clone of the root, a
  tree equal to the one it was given.
\<close>

theorem renameTag_list_child_returns_clone:
  "2 \<le> length nodePath \<Longrightarrow> cloneTree root = Some clonedRoot \<Longrightarrow>
     findNodeByPath root (butlast nodePath) = Some parent \<Longrightarrow> node_type parent = TagList \<Longrightarrow>
     renameTag localeCompare root nodePath newName = Some clonedRoot \<and> clonedRoot = root"
proof -
  assume l: "2 \<le> length nodePath" and c: "cloneTree root = Some clonedRoot"
    and p: "findNodeByPath root (butlast nodePath) = Some parent" and t: "node_type parent = TagList"
  from c have e: "clonedRoot = root" by (rule cloneTree_same)
  from l have n: "\<not> length nodePath \<le> 1" by simp
  show ?thesis
  proof (cases "findNodeByPath root nodePath")
    case None
    with n c e p show ?thesis by (simp add: renameTag_def Let_def)
  next
    case (Some node)
    with n c e p t show ?thesis by (simp add: renameTag_def Let_def)
  qed
qed

lemma clone_example: "cloneTree example_root = Some example_root"
  by code_simp

theorem renameTag_list_child_returns_clone_witness:
  "(2 :: nat) \<le> length [''Data'', ''a'', ''0''] \<and>
   cloneTree example_root = Some example_root \<and>
   findNodeByPath example_root (butlast [''Data'', ''a'', ''0'']) = Some example_list \<and>
   node_type example_list = TagList \<and>
   renameTag codeUnitCompare example_root [''Data'', ''a'', ''0''] ''x'' = Some example_root"
proof -
  have h: "(2 :: nat) \<le> length [''Data'', ''a'', ''0'']"
    "findNodeByPath example_root (butlast [''Data'', ''a'', ''0'']) = Some example_list"
    "node_type example_list = TagList"
    by (simp_all add: example_walks example_list_def)
  from renameTag_list_child_returns_clone [OF h(1) clone_example h(2) h(3)] h clone_example
  show ?thesis by simp
qed

text \<open>
  The claim as it stands fails on every such path: renaming \<^verbatim>\<open>Data/a/0\<close>, a child of the
  list \<^verbatim>\<open>a\<close>, returns a tree.
\<close>

theorem renameTag_list_child_counterexample:
  "findNodeByPath example_root [''Data'', ''a''] = Some example_list \<and>
   node_type example_list = TagList \<and>
   renameTag codeUnitCompare example_root [''Data'', ''a'', ''0''] ''x'' = Some example_root"
  by code_simp

text \<open>
  C2 at its failing input. \<^verbatim>\<open>addTag\<close> of the name \<^verbatim>\<open>b\<close> under \<^verbatim>\<open>Data\<close>, which holds an
  entry \<^verbatim>\<open>b\<close> already, overwrites the entry of the compound value and pushes a second
  child \<^verbatim>\<open>b\<close> beside the first, which keeps the old value 1.
\<close>

theorem addTag_existing_name_duplicates_child:
  "addTag codeUnitCompare example_root [''Data''] ''b'' TagByte (VNumber (Finite 2 0)) =
     Some (Node ''Data'' TagCompound
       (VCompound [(''b'', Some (TagByte, VNumber (Finite 2 0))),
                   (''a'', Some (TagList, VList TagInt [VNumber (Finite 5 0), VNumber (Finite 6 0)]))])
       (Some [example_list,
              Node ''b'' TagByte (VNumber (Finite 1 0)) None [''Data'', ''b''],
              Node ''b'' TagByte (VNumber (Finite 2 0)) None [''Data'', ''b'']])
       [''Data''])"
  by code_simp


section \<open>Block sections\<close>















lemma ceil_log2_example: "ceil_log2 1073741825 = 31"
  by (simp add: ceil_log2.simps)


lemma pack_example: "map asHighLow (packIndices 1073741825 [0, 2]) = [HighLow 1 0]"
  by (simp add: packIndices_def ceil_log2_example asHighLow_def)

end
